theory Spec2Isabelle
  imports Main
begin

section \<open>Python values, exceptions and observable events\<close>

text \<open>
  The module \<^verbatim>\<open>voxelbotutils/runner.py\<close> is embedded function by function. Strings are
  \<^typ>\<open>string\<close>; an attribute that may hold \<^verbatim>\<open>None\<close> is an \<^typ>\<open>'a option\<close>; Python's
  unbounded integers are \<^typ>\<open>int\<close>. A raised exception is a value: every function of the
  module returns an \<open>outcome\<close>, and \<^verbatim>\<open>exit(1)\<close> is the exception \<^verbatim>\<open>SystemExit(1)\<close> that the
  builtin raises.
\<close>

datatype pyexn =
    KeyError string
  | ConnectionRefusedError string
  | ValueError string
  | TypeError string
  | Exception string
  | OtherException string string \<comment> \<open>any other subclass of Exception: class name, message\<close>
  | KeyboardInterrupt
  | SystemExit int

text \<open>\<^verbatim>\<open>except Exception\<close> catches everything but the exceptions deriving from BaseException only.\<close>

fun is_Exception :: "pyexn \<Rightarrow> bool" where
  "is_Exception KeyboardInterrupt = False"
| "is_Exception (SystemExit _) = False"
| "is_Exception _ = True"

datatype 'a outcome = Return 'a | Raise pyexn

text \<open>
  What the module does to its collaborators, in the order it does it: the lines it logs on
  the module's logger, and the calls it makes on the database and redis connection classes,
  the bot and the event loop.
\<close>

datatype event =
    LogCritical string
  | LogInfo string
  | SetProactorEventLoop
  | DbCreatePool
  | DbAcquire
  | DbExecute string
  | DbRelease
  | RedisCreatePool
  | LoadAllExtensions
  | BotStart
  | BotLogout
  | DbPoolClose
  | RedisPoolClose
  | LoopClose

section \<open>The argument namespace\<close>

text \<open>
  The namespace \<^verbatim>\<open>get_default_program_arguments\<close> parses (the positional config file left
  out): \<^verbatim>\<open>--min\<close>, \<^verbatim>\<open>--max\<close> and \<^verbatim>\<open>--shardcount\<close> are \<^verbatim>\<open>type=int, default=None\<close>; the log levels
  are strings, \<^verbatim>\<open>--loglevel\<close> with the default \<^verbatim>\<open>"INFO"\<close>, the others with the default
  \<^verbatim>\<open>None\<close>.
\<close>

record args =
  min_arg :: "int option"
  max_arg :: "int option"
  shardcount :: "int option"
  loglevel :: "string option"
  loglevel_bot :: "string option"
  loglevel_discord :: "string option"
  loglevel_database :: "string option"
  loglevel_redis :: "string option"

definition default_args :: args where
  "default_args =
     \<lparr>min_arg = None, max_arg = None, shardcount = None, loglevel = Some ''INFO'',
      loglevel_bot = None, loglevel_discord = None, loglevel_database = None,
      loglevel_redis = None\<rparr>"

section \<open>validate_sharding_information\<close>

text \<open>\<^verbatim>\<open>args.max + 1\<close>: adding to \<^verbatim>\<open>None\<close> raises TypeError.\<close>

definition add_one :: "int option \<Rightarrow> int outcome" where
  "add_one v =
     (case v of
        None \<Rightarrow> Raise (TypeError (''unsupported operand type(s) for +: 'NoneType' and 'int'' @ [CHR 0x27]))
      | Some n \<Rightarrow> Return (n + 1))"

text \<open>\<^verbatim>\<open>list(range(start, stop))\<close>: \<^verbatim>\<open>range\<close> refuses \<^verbatim>\<open>None\<close> with TypeError.\<close>

definition range_list :: "int option \<Rightarrow> int \<Rightarrow> int list outcome" where
  "range_list start stop =
     (case start of
        None \<Rightarrow> Raise (TypeError (CHR 0x27 # ''NoneType' object cannot be interpreted as an integer''))
      | Some a \<Rightarrow> Return [a..stop - 1])"

text \<open>The truth value of an optional integer: \<^verbatim>\<open>None\<close> and \<^verbatim>\<open>0\<close> are false.\<close>

definition truthy :: "int option \<Rightarrow> bool" where
  "truthy v = (case v of None \<Rightarrow> False | Some n \<Rightarrow> n \<noteq> 0)"

text \<open>
  The function mutates the namespace and returns the shard ids, so the model returns the
  lines logged, the namespace as it is left, and the outcome.
\<close>

definition validate_sharding_information :: "args \<Rightarrow> event list \<times> args \<times> int list outcome" where
  "validate_sharding_information args0 =
     (let args1 =
        (if shardcount args0 = None
         then args0\<lparr>shardcount := Some 1, min_arg := Some 0, max_arg := Some 0\<rparr>
         else args0)
      in
      case add_one (max_arg args1) of
        Raise e \<Rightarrow> ([], args1, Raise e)
      | Return stop \<Rightarrow>
          (case range_list (min_arg args1) stop of
             Raise e \<Rightarrow> ([], args1, Raise e)
           | Return shard_ids \<Rightarrow>
               if shardcount args1 = None \<and> (truthy (min_arg args1) \<or> truthy (max_arg args1))
               then ([LogCritical ''You set a min/max shard handler but no shard count''],
                     args1, Raise (SystemExit 1))
               else if shardcount args1 \<noteq> None
                       \<and> \<not> (min_arg args1 \<noteq> None \<and> max_arg args1 \<noteq> None)
               then ([LogCritical ''You set a shardcount but not min/max shards''],
                     args1, Raise (SystemExit 1))
               else ([], args1, Return shard_ids)))"

section \<open>Log levels\<close>

text \<open>
  Text is a list of 8-bit characters, read as the code points below 256. \<^verbatim>\<open>set_log_level\<close>
  goes through three parts of the standard library of Python, which the model takes as a
  parameter: \<^verbatim>\<open>str.upper\<close>, the attributes of the logging module as
  \<^verbatim>\<open>getattr(logging, name, None)\<close> finds them, and the table \<^verbatim>\<open>logging._nameToLevel\<close> of the
  level names.
\<close>

text \<open>
  The value of a module attribute: an integer, a string, or any other object (a dict, a
  class, a function), held by its \<^verbatim>\<open>repr\<close>.
\<close>

datatype pyattr = IntAttr int | StrAttr string | ObjAttr string

record stdlib =
  str_upper :: "string \<Rightarrow> string"
  logging_getattr :: "string \<Rightarrow> pyattr option"
  nameToLevel :: "string \<Rightarrow> int option"

text \<open>
  \<^verbatim>\<open>repr\<close> of a string: double quotes when the text has a single quote and no double quote,
  single quotes otherwise; the quote and the backslash escaped, tab, newline and carriage
  return by their letters, every other character that is not printable as \<^verbatim>\<open>\xHH\<close>.
\<close>

definition hex_digit :: "nat \<Rightarrow> char" where
  "hex_digit n = (if n < 10 then char_of (48 + n) else char_of (87 + n))"

definition repr_char :: "char \<Rightarrow> char \<Rightarrow> string" where
  "repr_char quote c =
     (let n = (of_char c :: nat) in
      if c = quote \<or> n = 92 then [CHR 0x5C, c]
      else if n = 9 then [CHR 0x5C, CHR ''t'']
      else if n = 10 then [CHR 0x5C, CHR ''n'']
      else if n = 13 then [CHR 0x5C, CHR ''r'']
      else if n < 32 \<or> n = 127 \<or> (128 \<le> n \<and> n \<le> 160) \<or> n = 173
      then [CHR 0x5C, CHR ''x'', hex_digit (n div 16), hex_digit (n mod 16)]
      else [c])"

definition py_repr :: "string \<Rightarrow> string" where
  "py_repr s =
     (let quote = (if CHR 0x27 \<in> set s \<and> CHR 0x22 \<notin> set s then CHR 0x22 else CHR 0x27)
      in quote # concat (map (repr_char quote) s) @ [quote])"

text \<open>
  A logger is identified by its name, as in the registry behind \<^verbatim>\<open>logging.getLogger\<close>. The
  logging state is the level of every logger and the format \<^verbatim>\<open>logging.basicConfig\<close> has
  installed on the root logger (it does nothing once the root logger is configured).
\<close>

record logging_state =
  levels :: "string \<Rightarrow> int"
  root_format :: "string option"

definition getLogger :: "string \<Rightarrow> string" where
  "getLogger name = name"

text \<open>
  \<^verbatim>\<open>Logger.setLevel(level)\<close> checks its argument first (\<^verbatim>\<open>logging._checkLevel\<close>): an integer
  is the level; a string must be a level name, or ValueError is raised; anything else
  raises TypeError. Only then is the level of the logger assigned.
\<close>

definition checkLevel :: "stdlib \<Rightarrow> pyattr \<Rightarrow> int outcome" where
  "checkLevel lib level =
     (case level of
        IntAttr n \<Rightarrow> Return n
      | StrAttr s \<Rightarrow>
          (case nameToLevel lib s of
             None \<Rightarrow> Raise (ValueError (''Unknown level: '' @ py_repr s))
           | Some n \<Rightarrow> Return n)
      | ObjAttr r \<Rightarrow> Raise (TypeError (''Level not an integer or a valid string: '' @ r)))"

definition store_level :: "string \<Rightarrow> int \<Rightarrow> logging_state \<Rightarrow> logging_state" where
  "store_level lg n st = st\<lparr>levels := (levels st)(lg := n)\<rparr>"

definition setLevel ::
  "stdlib \<Rightarrow> string \<Rightarrow> pyattr \<Rightarrow> logging_state \<Rightarrow> logging_state \<times> unit outcome" where
  "setLevel lib lg level st =
     (case checkLevel lib level of
        Raise e \<Rightarrow> (st, Raise e)
      | Return n \<Rightarrow> (store_level lg n st, Return ()))"

definition basicConfig :: "string \<Rightarrow> logging_state \<Rightarrow> logging_state" where
  "basicConfig fmt st =
     (case root_format st of None \<Rightarrow> st\<lparr>root_format := Some fmt\<rparr> | Some _ \<Rightarrow> st)"

text \<open>The module's own logger, \<^verbatim>\<open>logger = logging.getLogger('vflbotutils')\<close>.\<close>

definition logger :: string where
  "logger = getLogger ''vflbotutils''"

text \<open>
  The first argument of \<^verbatim>\<open>set_log_level\<close> is a Logger object or the name of one
  (\<^verbatim>\<open>isinstance(logger_to_change, str)\<close>).
\<close>

datatype logger_ref = LoggerObject string | LoggerName string

definition resolve_logger :: "logger_ref \<Rightarrow> string" where
  "resolve_logger logger_to_change =
     (case logger_to_change of LoggerName name \<Rightarrow> getLogger name | LoggerObject l \<Rightarrow> l)"

text \<open>
  \<^verbatim>\<open>set_log_level\<close>: nothing for \<^verbatim>\<open>None\<close>; ValueError when the upper-cased name is not an
  attribute of the logging module; otherwise the attribute, whatever it is, goes to
  \<^verbatim>\<open>setLevel\<close>.
\<close>

definition set_log_level ::
  "stdlib \<Rightarrow> logger_ref \<Rightarrow> string option \<Rightarrow> logging_state \<Rightarrow> logging_state \<times> unit outcome" where
  "set_log_level lib logger_to_change loglevel_opt st =
     (case loglevel_opt of
        None \<Rightarrow> (st, Return ())
      | Some lvl \<Rightarrow>
          (let lg = resolve_logger logger_to_change in
           case logging_getattr lib (str_upper lib lvl) of
             None \<Rightarrow>
               (st, Raise (ValueError
                  (''The log level '' @ str_upper lib lvl
                   @ '' wasn't found in the logging module'')))
           | Some level \<Rightarrow> setLevel lib lg level st))"

text \<open>
  The attributes of the bot that the module reads: its loggers and the two \<^verbatim>\<open>enabled\<close>
  settings of its configuration, \<^verbatim>\<open>bot.config[section]['enabled']\<close>.
\<close>

record bot =
  bot_logger :: string
  database_logger :: string
  redis_logger :: string
  config :: "string \<rightharpoonup> (string \<rightharpoonup> bool)"

text \<open>A run of \<^verbatim>\<open>set_log_level\<close> calls, one statement after the other, up to the first raise.\<close>

fun set_log_levels ::
  "stdlib \<Rightarrow> (logger_ref \<times> string option) list \<Rightarrow> logging_state
     \<Rightarrow> logging_state \<times> unit outcome" where
  "set_log_levels lib [] st = (st, Return ())"
| "set_log_levels lib ((lg, lvl) # rest) st =
     (case set_log_level lib lg lvl st of
        (st', Raise e) \<Rightarrow> (st', Raise e)
      | (st', Return _) \<Rightarrow> set_log_levels lib rest st')"

definition set_default_log_levels ::
  "stdlib \<Rightarrow> bot \<Rightarrow> args \<Rightarrow> logging_state \<Rightarrow> bot \<times> logging_state \<times> unit outcome" where
  "set_default_log_levels lib bot0 args0 st =
     (let st1 = basicConfig ''%(asctime)s:%(name)s:%(levelname)s: %(message)s'' st;
          bot1 = bot0\<lparr>bot_logger := logger\<rparr>;
          (st2, r) = set_log_levels lib
            [(LoggerObject logger, loglevel args0),
             (LoggerObject (database_logger bot1), loglevel args0),
             (LoggerObject (redis_logger bot1), loglevel args0),
             (LoggerName ''discord'', loglevel args0),
             (LoggerObject logger, loglevel_bot args0),
             (LoggerObject (database_logger bot1), loglevel_database args0),
             (LoggerObject (redis_logger bot1), loglevel_redis args0),
             (LoggerName ''discord'', loglevel_discord args0)] st1
      in (bot1, st2, r))"

subsection \<open>The standard library as CPython ships it\<close>

text \<open>
  \<^verbatim>\<open>str.upper\<close> on the code points below 256: a to z and the accented small letters go to
  their capitals, the sharp s to \<^verbatim>\<open>SS\<close>, everything else is kept. The capitals of the micro
  sign (0xB5) and of the y with diaeresis (0xFF) are code points above 255, which a
  character of this type cannot hold: this function is \<^verbatim>\<open>str.upper\<close> on every text without
  these two.
\<close>

definition upper_char :: "char \<Rightarrow> string" where
  "upper_char c =
     (let n = (of_char c :: nat) in
      if 97 \<le> n \<and> n \<le> 122 then [char_of (n - 32)]
      else if n = 223 then ''SS''
      else if 224 \<le> n \<and> n \<le> 254 \<and> n \<noteq> 247 then [char_of (n - 32)]
      else [c])"

definition upper :: "string \<Rightarrow> string" where
  "upper s = concat (map upper_char s)"

text \<open>\<^verbatim>\<open>logging._nameToLevel\<close>: the names of the levels and their numbers.\<close>

definition logging_levels :: "string \<Rightarrow> int option" where
  "logging_levels name =
     (if name = ''CRITICAL'' then Some 50
      else if name = ''FATAL'' then Some 50
      else if name = ''ERROR'' then Some 40
      else if name = ''WARNING'' then Some 30
      else if name = ''WARN'' then Some 30
      else if name = ''INFO'' then Some 20
      else if name = ''DEBUG'' then Some 10
      else if name = ''NOTSET'' then Some 0
      else None)"

text \<open>
  The attributes of the logging module under the names \<^verbatim>\<open>str.upper\<close> can return: the eight
  level constants, the format string \<^verbatim>\<open>BASIC_FORMAT\<close> and the dict \<^verbatim>\<open>_STYLES\<close>. Every other
  attribute of the module has a small letter a to z in its name.
\<close>

definition logging_attributes :: "string \<Rightarrow> pyattr option" where
  "logging_attributes name =
     (if name = ''BASIC_FORMAT'' then Some (StrAttr ''%(levelname)s:%(name)s:%(message)s'')
      else if name = ''_STYLES'' then
        Some (ObjAttr
          ''{'%': (<class 'logging.PercentStyle'>, '%(levelname)s:%(name)s:%(message)s'), '{': (<class 'logging.StrFormatStyle'>, '{levelname}:{name}:{message}'), '$': (<class 'logging.StringTemplateStyle'>, '${levelname}:${name}:${message}')}'')
      else map_option IntAttr (logging_levels name))"

definition python_stdlib :: stdlib where
  "python_stdlib =
     \<lparr>str_upper = upper, logging_getattr = logging_attributes, nameToLevel = logging_levels\<rparr>"

section \<open>Computations that log, call collaborators and may raise\<close>

text \<open>
  The asynchronous functions of the module are run one after the other by
  \<^verbatim>\<open>loop.run_until_complete\<close>, and every \<^verbatim>\<open>await\<close> is waited for before the next statement,
  so a computation is the list of events it produces, in order, and its outcome.
\<close>

type_synonym 'a comp = "event list \<times> 'a outcome"

definition ret :: "'a \<Rightarrow> 'a comp" where
  "ret x = ([], Return x)"

definition raise :: "pyexn \<Rightarrow> 'a comp" where
  "raise e = ([], Raise e)"

definition info :: "string \<Rightarrow> unit comp" where
  "info msg = ([LogInfo msg], Return ())"

text \<open>
  A call on a collaborator: the event, then what the collaborator does (\<open>None\<close>: it returns;
  \<open>Some e\<close>: it raises \<open>e\<close>).
\<close>

definition call :: "event \<Rightarrow> pyexn option \<Rightarrow> unit comp" where
  "call ev behaviour = ([ev], case behaviour of None \<Rightarrow> Return () | Some e \<Rightarrow> Raise e)"

definition bind :: "'a comp \<Rightarrow> ('a \<Rightarrow> 'b comp) \<Rightarrow> 'b comp" where
  "bind m f =
     (case m of
        (t, Raise e) \<Rightarrow> (t, Raise e)
      | (t, Return x) \<Rightarrow> (case f x of (t', r) \<Rightarrow> (t @ t', r)))"

definition discard :: "'a comp \<Rightarrow> unit comp" where
  "discard m = bind m (\<lambda>_. ret ())"

text \<open>Statements one after the other, up to the first that raises.\<close>

fun steps :: "unit comp list \<Rightarrow> unit comp" where
  "steps [] = ret ()"
| "steps (m # ms) = bind m (\<lambda>_. steps ms)"

text \<open>
  \<^verbatim>\<open>try: m except ...\<close>: the handler gives the body of the first clause that matches the
  exception, \<open>None\<close> when no clause does and the exception goes on.
\<close>

definition try_except :: "'a comp \<Rightarrow> (pyexn \<Rightarrow> 'a comp option) \<Rightarrow> 'a comp" where
  "try_except m handler =
     (case m of
        (t, Return x) \<Rightarrow> (t, Return x)
      | (t, Raise e) \<Rightarrow>
          (case handler e of
             None \<Rightarrow> (t, Raise e)
           | Some h \<Rightarrow> (case h of (t', r) \<Rightarrow> (t @ t', r))))"

text \<open>
  The collaborators of the module, by what they do when called: the platform, the schema
  file (\<open>None\<close> when \<^verbatim>\<open>open\<close> or \<^verbatim>\<open>read\<close> raises an Exception), the connection classes, the
  bot and the event loop. The \<open>k\<close>-th statement sent to the database may fail on its
  own.
\<close>

record env =
  platform :: string
  schema_file :: "string option"
  db_create_pool :: "pyexn option"
  db_acquire :: "pyexn option"
  db_execute :: "nat \<Rightarrow> string \<Rightarrow> pyexn option"
  redis_create_pool :: "pyexn option"
  load_all_extensions :: "pyexn option"
  bot_start :: "pyexn option"
  bot_logout :: "pyexn option"
  db_pool_close :: "pyexn option"
  redis_pool_close :: "pyexn option"
  loop_close :: "pyexn option"

text \<open>\<^verbatim>\<open>bot.config[section]['enabled']\<close>: a missing key raises KeyError.\<close>

definition config_enabled :: "bot \<Rightarrow> string \<Rightarrow> bool comp" where
  "config_enabled b section_name =
     (case config b section_name of
        None \<Rightarrow> raise (KeyError section_name)
      | Some settings \<Rightarrow>
          (case settings ''enabled'' of
             None \<Rightarrow> raise (KeyError ''enabled'')
           | Some v \<Rightarrow> ret v))"

section \<open>create_initial_database\<close>

text \<open>\<^verbatim>\<open>data.split(';')\<close>: the pieces between the separators, empty ones included.\<close>

fun split :: "char \<Rightarrow> string \<Rightarrow> string list" where
  "split sep [] = [[]]"
| "split sep (c # cs) =
     (if c = sep then [] # split sep cs
      else (case split sep cs of
              [] \<Rightarrow> [[c]]
            | piece # pieces \<Rightarrow> (c # piece) # pieces))"

text \<open>
  \<^verbatim>\<open>str.strip()\<close>: leading and trailing whitespace removed; the whitespace of \<^verbatim>\<open>str.isspace\<close>
  among the code points below 256.
\<close>

definition isspace :: "char \<Rightarrow> bool" where
  "isspace c =
     (let n = (of_char c :: nat) in (9 \<le> n \<and> n \<le> 13) \<or> (28 \<le> n \<and> n \<le> 32) \<or> n = 133 \<or> n = 160)"

definition strip :: "string \<Rightarrow> string" where
  "strip s = rev (dropWhile isspace (rev (dropWhile isspace s)))"

text \<open>
  The loop over the statements: \<^verbatim>\<open>if i and i.strip(): await db(i.strip())\<close>. \<open>k\<close> counts the
  statements sent so far.
\<close>

fun execute_statements :: "env \<Rightarrow> nat \<Rightarrow> string list \<Rightarrow> unit comp" where
  "execute_statements e k [] = ret ()"
| "execute_statements e k (i # rest) =
     (if i \<noteq> [] \<and> strip i \<noteq> []
      then bind (call (DbExecute (strip i)) (db_execute e k (strip i)))
             (\<lambda>_. execute_statements e (Suc k) rest)
      else execute_statements e k rest)"

text \<open>
  Modelled from the spec: the context manager \<^verbatim>\<open>async with bot.database() as db\<close> (the class
  DatabaseConnection is not among the sources) is a scoped acquisition: one connection is
  acquired on entry and released on every exit path, also when the body raises.
\<close>

definition with_database :: "env \<Rightarrow> 'a comp \<Rightarrow> 'a comp" where
  "with_database e body =
     (case db_acquire e of
        Some ex \<Rightarrow> ([DbAcquire], Raise ex)
      | None \<Rightarrow> (case body of (t, r) \<Rightarrow> (DbAcquire # t @ [DbRelease], r)))"

definition create_initial_database :: "env \<Rightarrow> bool comp" where
  "create_initial_database e =
     (case schema_file e of
        None \<Rightarrow> ret False
      | Some data \<Rightarrow>
          (let create_table_statemenets = split CHR '';'' data in
           bind (with_database e (execute_statements e 0 create_table_statemenets))
             (\<lambda>_. ret True)))"

section \<open>The pool starters\<close>

definition database_pool_except :: "pyexn \<Rightarrow> unit comp option" where
  "database_pool_except ex =
     (case ex of
        KeyError _ \<Rightarrow>
          Some (raise (Exception
            ''KeyError creating database pool - is there a 'database' object in the config?''))
      | ConnectionRefusedError _ \<Rightarrow>
          Some (raise (Exception
            ''ConnectionRefusedError creating database pool - did you set the right information in the config, and is the database running?''))
      | _ \<Rightarrow>
          if is_Exception ex then Some (raise (Exception ''Error creating database pool''))
          else None)"

definition start_database_pool :: "env \<Rightarrow> bot \<Rightarrow> unit comp" where
  "start_database_pool e b =
     bind (config_enabled b ''database'') (\<lambda>enabled.
       if enabled then
         steps
           [info ''Creating database pool'',
            try_except (call DbCreatePool (db_create_pool e)) database_pool_except,
            info ''Created database pool successfully'',
            info ''Creating initial database tables'',
            discard (create_initial_database e)]
       else info ''Database connection has been disabled'')"

definition redis_pool_except :: "pyexn \<Rightarrow> unit comp option" where
  "redis_pool_except ex =
     (case ex of
        KeyError _ \<Rightarrow>
          Some (raise (KeyError
            ''KeyError creating redis pool - is there a 'redis' object in the config?''))
      | ConnectionRefusedError _ \<Rightarrow>
          Some (raise (ConnectionRefusedError
            ''ConnectionRefusedError creating redis pool - did you set the right information in the config, and is the database running?''))
      | _ \<Rightarrow>
          if is_Exception ex then Some (raise (Exception ''Error creating redis pool''))
          else None)"

definition start_redis_pool :: "env \<Rightarrow> bot \<Rightarrow> unit comp" where
  "start_redis_pool e b =
     bind (config_enabled b ''redis'') (\<lambda>enabled.
       if enabled then
         steps
           [info ''Creating redis pool'',
            try_except (call RedisCreatePool (redis_create_pool e)) redis_pool_except,
            info ''Created redis pool successfully'']
       else info ''Redis connection has been disabled'')"

section \<open>run_bot\<close>

definition keyboard_interrupt_except :: "env \<Rightarrow> pyexn \<Rightarrow> unit comp option" where
  "keyboard_interrupt_except e ex =
     (case ex of
        KeyboardInterrupt \<Rightarrow>
          Some (steps [info ''Logging out bot'', call BotLogout (bot_logout e)])
      | _ \<Rightarrow> None)"

text \<open>
  The event loop for the platform: on \<^verbatim>\<open>win32\<close> a ProactorEventLoop is created and set.
\<close>

definition select_event_loop :: "env \<Rightarrow> unit comp" where
  "select_event_loop e =
     (if platform e = ''win32'' then call SetProactorEventLoop None else ret ())"

definition run_bot :: "env \<Rightarrow> bot \<Rightarrow> unit comp" where
  "run_bot e b =
     steps
       [select_event_loop e,
        start_database_pool e b,
        start_redis_pool e b,
        info ''Loading extensions... '',
        call LoadAllExtensions (load_all_extensions e),
        try_except (steps [info ''Running bot'', call BotStart (bot_start e)])
          (keyboard_interrupt_except e),
        bind (config_enabled b ''database'') (\<lambda>enabled.
          if enabled
          then steps [info ''Closing database pool'', call DbPoolClose (db_pool_close e)]
          else ret ()),
        bind (config_enabled b ''redis'') (\<lambda>enabled.
          if enabled
          then steps [info ''Closing redis pool'', call RedisPoolClose (redis_pool_close e)]
          else ret ()),
        info ''Closing asyncio loop'',
        call LoopClose (loop_close e)]"

section \<open>Example inputs\<close>

definition example_bot :: bot where
  "example_bot =
     \<lparr>bot_logger = ''bot'', database_logger = ''vflbotutils.database'',
      redis_logger = ''vflbotutils.redis'',
      config = [''database'' \<mapsto> [''enabled'' \<mapsto> True], ''redis'' \<mapsto> [''enabled'' \<mapsto> True]]\<rparr>"

definition example_env :: env where
  "example_env =
     \<lparr>platform = ''linux'',
      schema_file = Some ''CREATE TABLE a(x int); CREATE TABLE b(y int);'',
      db_create_pool = None, db_acquire = None, db_execute = (\<lambda>_ _. None),
      redis_create_pool = None, load_all_extensions = None, bot_start = None,
      bot_logout = None, db_pool_close = None, redis_pool_close = None,
      loop_close = None\<rparr>"

definition interrupted_env :: env where
  "interrupted_env = example_env\<lparr>bot_start := Some KeyboardInterrupt\<rparr>"

definition database_only_bot :: bot where
  "database_only_bot =
     example_bot\<lparr>config := [''database'' \<mapsto> [''enabled'' \<mapsto> True],
                            ''redis'' \<mapsto> [''enabled'' \<mapsto> False]]\<rparr>"

definition redis_only_bot :: bot where
  "redis_only_bot =
     example_bot\<lparr>config := [''database'' \<mapsto> [''enabled'' \<mapsto> False],
                            ''redis'' \<mapsto> [''enabled'' \<mapsto> True]]\<rparr>"

definition database_refused_env :: env where
  "database_refused_env =
     example_env\<lparr>db_create_pool := Some (ConnectionRefusedError ''Connect call failed'')\<rparr>"

definition redis_no_settings_env :: env where
  "redis_no_settings_env = example_env\<lparr>redis_create_pool := Some (KeyError ''host'')\<rparr>"

definition empty_schema_env :: env where
  "empty_schema_env = example_env\<lparr>schema_file := Some ''''\<rparr>"

definition blank_schema_env :: env where
  "blank_schema_env = example_env\<lparr>schema_file := Some [CHR '' '', CHR 0x0A]\<rparr>"

definition no_schema_env :: env where
  "no_schema_env = example_env\<lparr>schema_file := None\<rparr>"

text \<open>
  The numeric level a name stands for: the attribute of the logging module under the
  upper-cased name, as \<^verbatim>\<open>setLevel\<close> reads it (\<open>None\<close> when there is no such attribute or
  \<^verbatim>\<open>setLevel\<close> refuses it).
\<close>

definition level_named :: "stdlib \<Rightarrow> string \<Rightarrow> int option" where
  "level_named lib name =
     (case logging_getattr lib (str_upper lib name) of
        None \<Rightarrow> None
      | Some level \<Rightarrow> (case checkLevel lib level of Return n \<Rightarrow> Some n | Raise _ \<Rightarrow> None))"

text \<open>
  The layering as the specification words it: the level of a channel is the level named by
  its override when one is provided, and the level named by the global setting otherwise.
\<close>

definition spec_layered_level :: "stdlib \<Rightarrow> string \<Rightarrow> string option \<Rightarrow> int option" where
  "spec_layered_level lib global_level override =
     level_named lib (case override of None \<Rightarrow> global_level | Some ov \<Rightarrow> ov)"

section \<open>Observing a trace\<close>

text \<open>
  The calls of a trace (its log lines left out) and the stage of the run each call belongs
  to: event loop selection, database start, redis start, extension loading, the run, the
  logout, the two pool closes and the loop close.
\<close>

fun is_call :: "event \<Rightarrow> bool" where
  "is_call (LogCritical _) = False"
| "is_call (LogInfo _) = False"
| "is_call _ = True"

fun stage :: "event \<Rightarrow> nat" where
  "stage (LogCritical _) = 0"
| "stage (LogInfo _) = 0"
| "stage SetProactorEventLoop = 0"
| "stage DbCreatePool = 1"
| "stage DbAcquire = 1"
| "stage (DbExecute _) = 1"
| "stage DbRelease = 1"
| "stage RedisCreatePool = 2"
| "stage LoadAllExtensions = 3"
| "stage BotStart = 4"
| "stage BotLogout = 5"
| "stage DbPoolClose = 6"
| "stage RedisPoolClose = 7"
| "stage LoopClose = 8"

definition stages :: "event list \<Rightarrow> nat list" where
  "stages t = map stage (filter is_call t)"

definition within :: "nat \<Rightarrow> nat \<Rightarrow> 'a comp \<Rightarrow> bool" where
  "within lo hi m \<longleftrightarrow>
     sorted (stages (fst m)) \<and> (\<forall>n \<in> set (stages (fst m)). lo \<le> n \<and> n \<le> hi)"

text \<open>
  The three parts of \<^verbatim>\<open>run_bot\<close>: everything up to the extensions, the \<^verbatim>\<open>try\<close> statement
  around \<^verbatim>\<open>bot.start()\<close>, and the clean-up after it.
\<close>

definition startup :: "env \<Rightarrow> bot \<Rightarrow> unit comp" where
  "startup e b =
     steps
       [select_event_loop e,
        start_database_pool e b,
        start_redis_pool e b,
        info ''Loading extensions... '',
        call LoadAllExtensions (load_all_extensions e)]"

definition run_phase :: "env \<Rightarrow> unit comp" where
  "run_phase e =
     try_except (steps [info ''Running bot'', call BotStart (bot_start e)])
       (keyboard_interrupt_except e)"

definition teardown :: "env \<Rightarrow> bot \<Rightarrow> unit comp" where
  "teardown e b =
     steps
       [bind (config_enabled b ''database'') (\<lambda>enabled.
          if enabled
          then steps [info ''Closing database pool'', call DbPoolClose (db_pool_close e)]
          else ret ()),
        bind (config_enabled b ''redis'') (\<lambda>enabled.
          if enabled
          then steps [info ''Closing redis pool'', call RedisPoolClose (redis_pool_close e)]
          else ret ()),
        info ''Closing asyncio loop'',
        call LoopClose (loop_close e)]"

section \<open>Properties of the shard validation\<close>

lemma validate_count_partial_range:
  "shardcount a \<noteq> None \<Longrightarrow> min_arg a = None \<or> max_arg a = None \<Longrightarrow>
   \<exists>m. validate_sharding_information a = ([], a, Raise (TypeError m))"
  by (auto simp add: validate_sharding_information_def add_one_def range_list_def
      split: option.splits)

text \<open>
  C1. With a shard count and only one end of the range, the claim expects the critical line
  and \<^verbatim>\<open>exit(1)\<close>. The range is built before the check: at \<^verbatim>\<open>--shardcount 2 --min 0\<close> the
  function raises TypeError from \<^verbatim>\<open>args.max + 1\<close>, logs nothing and never reaches the exit.
\<close>

theorem validate_count_without_max_raises_TypeError:
  "validate_sharding_information (default_args\<lparr>shardcount := Some 2, min_arg := Some 0\<rparr>) =
     ([], default_args\<lparr>shardcount := Some 2, min_arg := Some 0\<rparr>,
      Raise (TypeError (''unsupported operand type(s) for +: 'NoneType' and 'int'' @ [CHR 0x27])))"
  by (simp add: validate_sharding_information_def add_one_def range_list_def default_args_def)

text \<open>
  C6. Without a shard count the namespace is set to count 1, min 0, max 0 and the shard ids
  are \<open>[0]\<close>, whatever min and max were supplied; nothing is logged.
\<close>

theorem validate_without_shardcount:
  "shardcount a = None \<Longrightarrow>
   validate_sharding_information a =
     ([], a\<lparr>shardcount := Some 1, min_arg := Some 0, max_arg := Some 0\<rparr>, Return [0])"
  by (simp add: validate_sharding_information_def add_one_def range_list_def truthy_def)

theorem validate_without_shardcount_witness:
  "shardcount (default_args\<lparr>min_arg := Some 3, max_arg := Some 7\<rparr>) = None
   \<and> validate_sharding_information (default_args\<lparr>min_arg := Some 3, max_arg := Some 7\<rparr>) =
     ([], default_args\<lparr>shardcount := Some 1, min_arg := Some 0, max_arg := Some 0\<rparr>,
      Return [0])"
  using validate_without_shardcount [of "default_args\<lparr>min_arg := Some 3, max_arg := Some 7\<rparr>"]
  by (simp add: default_args_def)

text \<open>
  C10. The branch that logs "You set a min/max shard handler but no shard count" is never
  taken: the line is the branch's first statement, and no namespace makes the function
  log it.
\<close>

theorem validate_range_without_count_unreachable:
  "LogCritical ''You set a min/max shard handler but no shard count''
     \<notin> set (fst (validate_sharding_information a))"
  by (simp add: validate_sharding_information_def add_one_def range_list_def Let_def
      split: outcome.splits option.splits)

theorem validate_range_without_count_unreachable_witness:
  "LogCritical ''You set a min/max shard handler but no shard count''
     \<notin> set (fst (validate_sharding_information (default_args\<lparr>min_arg := Some 3\<rparr>)))
   \<and> validate_sharding_information (default_args\<lparr>min_arg := Some 3\<rparr>) =
     ([], default_args\<lparr>shardcount := Some 1, min_arg := Some 0, max_arg := Some 0\<rparr>,
      Return [0])"
  using validate_range_without_count_unreachable [of "default_args\<lparr>min_arg := Some 3\<rparr>"]
  by (simp add: validate_sharding_information_def add_one_def range_list_def truthy_def
      default_args_def)

section \<open>Properties of the log levels\<close>

lemma set_log_level_None: "set_log_level lib lg None st = (st, Return ())"
  by (simp add: set_log_level_def)

lemma set_log_level_Some:
  "level_named lib l = Some v \<Longrightarrow>
   set_log_level lib lg (Some l) st = (store_level (resolve_logger lg) v st, Return ())"
  by (simp add: set_log_level_def level_named_def setLevel_def
      split: option.splits outcome.splits)

lemma set_log_level_layered:
  "spec_layered_level lib G ov = Some v \<Longrightarrow>
   set_log_level lib lg ov st =
     ((case ov of None \<Rightarrow> st | Some _ \<Rightarrow> store_level (resolve_logger lg) v st), Return ())"
  by (cases ov) (simp_all add: spec_layered_level_def set_log_level_None set_log_level_Some)

lemma levels_store_level:
  "levels (store_level lg v st) x = (if x = lg then v else levels st x)"
  by (simp add: store_level_def)

text \<open>The eight calls of \<^verbatim>\<open>set_default_log_levels\<close>, when every level named is recognised.\<close>

lemma set_log_levels_layered:
  assumes G: "loglevel a = Some G"
    and g: "level_named lib G = Some g"
    and lb: "spec_layered_level lib G (loglevel_bot a) = Some lb"
    and ld: "spec_layered_level lib G (loglevel_database a) = Some ld"
    and lr: "spec_layered_level lib G (loglevel_redis a) = Some lr"
    and ldi: "spec_layered_level lib G (loglevel_discord a) = Some ldi"
  shows "set_log_levels lib
            [(LoggerObject logger, loglevel a),
             (LoggerObject db, loglevel a),
             (LoggerObject re, loglevel a),
             (LoggerName ''discord'', loglevel a),
             (LoggerObject logger, loglevel_bot a),
             (LoggerObject db, loglevel_database a),
             (LoggerObject re, loglevel_redis a),
             (LoggerName ''discord'', loglevel_discord a)] st =
         ((case loglevel_discord a of None \<Rightarrow> (\<lambda>s. s)
           | Some _ \<Rightarrow> store_level (getLogger ''discord'') ldi)
          ((case loglevel_redis a of None \<Rightarrow> (\<lambda>s. s) | Some _ \<Rightarrow> store_level re lr)
          ((case loglevel_database a of None \<Rightarrow> (\<lambda>s. s) | Some _ \<Rightarrow> store_level db ld)
          ((case loglevel_bot a of None \<Rightarrow> (\<lambda>s. s) | Some _ \<Rightarrow> store_level logger lb)
          (store_level (getLogger ''discord'') g
            (store_level re g (store_level db g (store_level logger g st))))))),
          Return ())"
proof -
  have ov: "\<And>lg ov v s. spec_layered_level lib G ov = Some v \<Longrightarrow>
      set_log_level lib lg ov s =
        ((case ov of None \<Rightarrow> (\<lambda>s. s) | Some _ \<Rightarrow> store_level (resolve_logger lg) v) s,
         Return ())"
    by (simp add: set_log_level_layered split: option.splits)
  have gs: "\<And>lg s. set_log_level lib lg (loglevel a) s =
      (store_level (resolve_logger lg) g s, Return ())"
    using g by (simp add: G set_log_level_Some)
  show ?thesis
    by (simp add: gs ov [OF lb] ov [OF ld] ov [OF lr] ov [OF ldi] resolve_logger_def
        split: option.split)
qed

text \<open>
  C7. With a recognised global level \<open>G\<close> and four loggers that are four different loggers,
  \<^verbatim>\<open>set_default_log_levels\<close> returns normally and leaves every channel at the level of its
  override when one is given and at the level of \<open>G\<close> otherwise; a call of \<^verbatim>\<open>set_log_level\<close>
  with \<^verbatim>\<open>None\<close> returns the logging state as it was. This holds whatever the standard
  library's \<^verbatim>\<open>str.upper\<close>, attribute table and level names are.
\<close>

theorem log_level_layering:
  assumes d: "distinct [logger, database_logger b, redis_logger b, getLogger ''discord'']"
    and G: "loglevel a = Some G"
    and g: "level_named lib G = Some g"
    and lb: "spec_layered_level lib G (loglevel_bot a) = Some lb"
    and ld: "spec_layered_level lib G (loglevel_database a) = Some ld"
    and lr: "spec_layered_level lib G (loglevel_redis a) = Some lr"
    and ldi: "spec_layered_level lib G (loglevel_discord a) = Some ldi"
  shows "snd (snd (set_default_log_levels lib b a st)) = Return ()
       \<and> levels (fst (snd (set_default_log_levels lib b a st))) logger = lb
       \<and> levels (fst (snd (set_default_log_levels lib b a st))) (database_logger b) = ld
       \<and> levels (fst (snd (set_default_log_levels lib b a st))) (redis_logger b) = lr
       \<and> levels (fst (snd (set_default_log_levels lib b a st))) (getLogger ''discord'') = ldi
       \<and> set_log_level lib lg None st = (st, Return ())"
proof -
  let ?r = "set_default_log_levels lib b a st"
  note run = set_log_levels_layered [OF G g lb ld lr ldi]
  have g': "\<And>ov v. spec_layered_level lib G ov = Some v \<Longrightarrow> ov = None \<Longrightarrow> v = g"
    using g by (simp add: spec_layered_level_def)
  have r: "snd (snd ?r) = Return ()"
    by (simp add: set_default_log_levels_def Let_def run del: set_log_levels.simps)
  obtain s0 where s0: "s0 = basicConfig ''%(asctime)s:%(name)s:%(levelname)s: %(message)s'' st"
    by simp
  have eq: "fst (snd ?r) =
     (case loglevel_discord a of None \<Rightarrow> (\<lambda>s. s)
      | Some _ \<Rightarrow> store_level (getLogger ''discord'') ldi)
      ((case loglevel_redis a of None \<Rightarrow> (\<lambda>s. s) | Some _ \<Rightarrow> store_level (redis_logger b) lr)
      ((case loglevel_database a of None \<Rightarrow> (\<lambda>s. s)
        | Some _ \<Rightarrow> store_level (database_logger b) ld)
      ((case loglevel_bot a of None \<Rightarrow> (\<lambda>s. s) | Some _ \<Rightarrow> store_level logger lb)
      (store_level (getLogger ''discord'') g (store_level (redis_logger b) g
        (store_level (database_logger b) g (store_level logger g s0)))))))"
    by (simp add: set_default_log_levels_def Let_def run s0 del: set_log_levels.simps
        split: option.split)
  have 1: "levels (fst (snd ?r)) logger = lb"
    unfolding eq using d g' [OF lb]
    by (cases "loglevel_bot a"; cases "loglevel_database a"; cases "loglevel_redis a";
        cases "loglevel_discord a")
       (auto simp add: levels_store_level)
  have 2: "levels (fst (snd ?r)) (database_logger b) = ld"
    unfolding eq using d g' [OF ld]
    by (cases "loglevel_bot a"; cases "loglevel_database a"; cases "loglevel_redis a";
        cases "loglevel_discord a")
       (auto simp add: levels_store_level)
  have 3: "levels (fst (snd ?r)) (redis_logger b) = lr"
    unfolding eq using d g' [OF lr]
    by (cases "loglevel_bot a"; cases "loglevel_database a"; cases "loglevel_redis a";
        cases "loglevel_discord a")
       (auto simp add: levels_store_level)
  have 4: "levels (fst (snd ?r)) (getLogger ''discord'') = ldi"
    unfolding eq using d g' [OF ldi]
    by (cases "loglevel_bot a"; cases "loglevel_database a"; cases "loglevel_redis a";
        cases "loglevel_discord a")
       (auto simp add: levels_store_level)
  show ?thesis using r 1 2 3 4 by (simp add: set_log_level_None)
qed

lemma upper_INFO: "upper ''INFO'' = ''INFO''"
  by code_simp

lemma upper_debug: "upper ''debug'' = ''DEBUG''"
  by code_simp

lemma upper_verbose: "upper ''verbose'' = ''VERBOSE''"
  by code_simp

lemma upper_basic_format: "upper ''basic_format'' = ''BASIC_FORMAT''"
  by code_simp

lemma upper_styles: "upper ''_styles'' = ''_STYLES''"
  by code_simp

lemma level_named_INFO: "level_named python_stdlib ''INFO'' = Some 20"
  by (simp add: level_named_def python_stdlib_def upper_INFO logging_attributes_def
      logging_levels_def checkLevel_def)

lemma level_named_debug: "level_named python_stdlib ''debug'' = Some 10"
  by (simp add: level_named_def python_stdlib_def upper_debug logging_attributes_def
      logging_levels_def checkLevel_def)

theorem log_level_layering_witness:
  "snd (snd (set_default_log_levels python_stdlib example_bot
      (default_args\<lparr>loglevel_database := Some ''debug''\<rparr>)
      \<lparr>levels = (\<lambda>_. 0), root_format = None\<rparr>)) = Return ()
   \<and> levels (fst (snd (set_default_log_levels python_stdlib example_bot
      (default_args\<lparr>loglevel_database := Some ''debug''\<rparr>)
      \<lparr>levels = (\<lambda>_. 0), root_format = None\<rparr>))) ''vflbotutils.database'' = 10
   \<and> levels (fst (snd (set_default_log_levels python_stdlib example_bot
      (default_args\<lparr>loglevel_database := Some ''debug''\<rparr>)
      \<lparr>levels = (\<lambda>_. 0), root_format = None\<rparr>))) ''vflbotutils.redis'' = 20"
proof -
  let ?a = "default_args\<lparr>loglevel_database := Some ''debug''\<rparr>"
  have d: "distinct [logger, database_logger example_bot, redis_logger example_bot,
      getLogger ''discord'']"
    by (simp add: logger_def getLogger_def example_bot_def)
  have G: "loglevel ?a = Some ''INFO''" by (simp add: default_args_def)
  have g: "level_named python_stdlib ''INFO'' = Some 20" by (rule level_named_INFO)
  have lb: "spec_layered_level python_stdlib ''INFO'' (loglevel_bot ?a) = Some 20"
    by (simp add: default_args_def spec_layered_level_def level_named_INFO)
  have ld: "spec_layered_level python_stdlib ''INFO'' (loglevel_database ?a) = Some 10"
    by (simp add: default_args_def spec_layered_level_def level_named_debug)
  have lr: "spec_layered_level python_stdlib ''INFO'' (loglevel_redis ?a) = Some 20"
    by (simp add: default_args_def spec_layered_level_def level_named_INFO)
  have ldi: "spec_layered_level python_stdlib ''INFO'' (loglevel_discord ?a) = Some 20"
    by (simp add: default_args_def spec_layered_level_def level_named_INFO)
  show ?thesis
    using log_level_layering [OF d G g lb ld lr ldi] by (simp add: example_bot_def)
qed

text \<open>
  What \<^verbatim>\<open>set_log_level\<close> does with a name that is no level. When the upper-cased name is not
  an attribute of the logging module, the function raises its own ValueError, which
  carries the upper-cased name. Whenever it raises, the logging state is as it was.
\<close>

lemma set_log_level_not_found:
  "logging_getattr lib (str_upper lib lvl) = None \<Longrightarrow>
   set_log_level lib lg (Some lvl) st =
     (st, Raise (ValueError
        (''The log level '' @ str_upper lib lvl @ '' wasn't found in the logging module'')))"
  by (simp add: set_log_level_def)

lemma set_log_level_raise_unchanged:
  "snd (set_log_level lib lg lvl st) = Raise ex \<Longrightarrow> fst (set_log_level lib lg lvl st) = st"
  by (auto simp add: set_log_level_def setLevel_def Let_def
      split: option.splits outcome.splits)

lemma set_log_level_verbose:
  "set_log_level python_stdlib (LoggerName ''discord'') (Some ''verbose'') st =
     (st, Raise (ValueError ''The log level VERBOSE wasn't found in the logging module''))"
  using set_log_level_not_found [of python_stdlib "''verbose''" "LoggerName ''discord''" st]
  by (simp add: python_stdlib_def upper_verbose logging_attributes_def logging_levels_def)

lemma py_repr_BASIC_FORMAT:
  "py_repr ''%(levelname)s:%(name)s:%(message)s'' =
     CHR 0x27 # ''%(levelname)s:%(name)s:%(message)s'' @ [CHR 0x27]"
  by code_simp

text \<open>
  C9. The claim expects a ValueError that names the level string for every string that is
  no level. \<^verbatim>\<open>BASIC_FORMAT\<close> and \<^verbatim>\<open>_STYLES\<close> are attributes of the logging module and no
  levels: for \<^verbatim>\<open>basic_format\<close> the test \<^verbatim>\<open>level is None\<close> passes and \<^verbatim>\<open>setLevel\<close> raises
  ValueError with the text of the format, not the level string; for \<^verbatim>\<open>_styles\<close> it raises
  TypeError. The level of the logger is unchanged in both.
\<close>

theorem set_log_level_non_level_attribute:
  "set_log_level python_stdlib (LoggerObject logger) (Some ''basic_format'') st =
     (st, Raise (ValueError
        (''Unknown level: '%(levelname)s:%(name)s:%(message)s'' @ [CHR 0x27])))
   \<and> (\<exists>msg. set_log_level python_stdlib (LoggerObject logger) (Some ''_styles'') st =
        (st, Raise (TypeError msg)))"
  by (simp add: set_log_level_def setLevel_def checkLevel_def python_stdlib_def
      upper_basic_format upper_styles logging_attributes_def logging_levels_def
      py_repr_BASIC_FORMAT)

section \<open>Properties of the traces\<close>

subsection \<open>Traces of the combinators and stage bounds\<close>

lemma stages_append: "stages (xs @ ys) = stages xs @ stages ys"
  by (simp add: stages_def)

lemma bind_Return: "bind (t, Return x) f = (t @ fst (f x), snd (f x))"
  by (simp add: bind_def split: prod.splits)

lemma bind_Raise: "bind (t, Raise ex) f = (t, Raise ex)"
  by (simp add: bind_def)

lemma fst_bind:
  "fst (bind m f) = fst m @ (case snd m of Return x \<Rightarrow> fst (f x) | Raise _ \<Rightarrow> [])"
  by (cases m; cases "snd m") (auto simp add: bind_def split: prod.splits)

lemma snd_bind:
  "snd (bind m f) = (case snd m of Return x \<Rightarrow> snd (f x) | Raise ex \<Rightarrow> Raise ex)"
  by (cases m; cases "snd m") (auto simp add: bind_def split: prod.splits)

lemma fst_try_except:
  "fst (try_except m h) =
     fst m @ (case snd m of Return _ \<Rightarrow> []
              | Raise ex \<Rightarrow> (case h ex of None \<Rightarrow> [] | Some c \<Rightarrow> fst c))"
  by (cases m; cases "snd m") (auto simp add: try_except_def split: prod.splits option.splits)

lemma snd_try_except:
  "snd (try_except m h) =
     (case snd m of Return x \<Rightarrow> Return x
      | Raise ex \<Rightarrow> (case h ex of None \<Rightarrow> Raise ex | Some c \<Rightarrow> snd c))"
  by (cases m; cases "snd m") (auto simp add: try_except_def split: prod.splits option.splits)

lemma within_mono: "within lo hi m \<Longrightarrow> lo' \<le> lo \<Longrightarrow> hi \<le> hi' \<Longrightarrow> within lo' hi' m"
  by (fastforce simp add: within_def)

lemma within_ret: "within lo hi (ret x)"
  by (simp add: within_def ret_def stages_def)

lemma within_raise: "within lo hi (raise x)"
  by (simp add: within_def raise_def stages_def)

lemma within_info: "within lo hi (info msg)"
  by (simp add: within_def info_def stages_def)

lemma within_call: "is_call ev \<Longrightarrow> lo \<le> stage ev \<Longrightarrow> stage ev \<le> hi \<Longrightarrow> within lo hi (call ev bhv)"
  by (simp add: within_def call_def stages_def)

lemma within_append:
  assumes "sorted (stages xs)" "sorted (stages ys)"
    and "\<forall>n \<in> set (stages xs). lo \<le> n \<and> n \<le> mid"
    and "\<forall>n \<in> set (stages ys). mid \<le> n \<and> n \<le> hi"
    and "lo \<le> mid" "mid \<le> hi"
  shows "sorted (stages (xs @ ys)) \<and> (\<forall>n \<in> set (stages (xs @ ys)). lo \<le> n \<and> n \<le> hi)"
proof -
  have "\<forall>x \<in> set (stages xs). \<forall>y \<in> set (stages ys). x \<le> y"
  proof (intro ballI)
    fix x y assume "x \<in> set (stages xs)" "y \<in> set (stages ys)"
    then have "x \<le> mid" "mid \<le> y" using assms(3,4) by blast+
    then show "x \<le> y" by simp
  qed
  then have s: "sorted (stages (xs @ ys))"
    using assms(1,2) by (simp add: stages_append sorted_append)
  have "\<forall>n \<in> set (stages (xs @ ys)). lo \<le> n \<and> n \<le> hi"
  proof
    fix n assume "n \<in> set (stages (xs @ ys))"
    then consider "n \<in> set (stages xs)" | "n \<in> set (stages ys)"
      by (auto simp add: stages_append)
    then show "lo \<le> n \<and> n \<le> hi"
    proof cases
      case 1
      then have "lo \<le> n \<and> n \<le> mid" using assms(3) by blast
      then show ?thesis using assms(6) by simp
    next
      case 2
      then have "mid \<le> n \<and> n \<le> hi" using assms(4) by blast
      then show ?thesis using assms(5) by simp
    qed
  qed
  with s show ?thesis by simp
qed

lemma within_Nil_trace: "fst m = [] \<Longrightarrow> within lo hi m"
  by (simp add: within_def stages_def)

lemma within_silent: "within lo hi (([], Return ()) :: unit comp)"
  by (simp add: within_Nil_trace)

lemma within_appendI:
  assumes "within lo mid m" "within mid hi c" "lo \<le> mid" "mid \<le> hi" "fst r = fst m @ fst c"
  shows "within lo hi r"
proof -
  from assms(1) have 1: "sorted (stages (fst m))"
    and 2: "\<forall>n \<in> set (stages (fst m)). lo \<le> n \<and> n \<le> mid"
    by (simp_all add: within_def)
  from assms(2) have 3: "sorted (stages (fst c))"
    and 4: "\<forall>n \<in> set (stages (fst c)). mid \<le> n \<and> n \<le> hi"
    by (simp_all add: within_def)
  show ?thesis
    unfolding within_def assms(5) by (rule within_append [OF 1 3 2 4 assms(3) assms(4)])
qed

lemma within_bind:
  assumes m: "within lo mid m" and f: "\<And>x. within mid hi (f x)"
    and le: "lo \<le> mid" "mid \<le> hi"
  shows "within lo hi (bind m f)"
proof (cases "snd m")
  case (Return x)
  have "fst (bind m f) = fst m @ fst (f x)" by (simp add: fst_bind Return)
  then show ?thesis by (rule within_appendI [OF m f le])
next
  case (Raise ex)
  have "fst (bind m f) = fst m @ fst (([], Return ()) :: unit comp)" by (simp add: fst_bind Raise)
  then show ?thesis by (rule within_appendI [OF m within_silent le])
qed

lemma within_try_except:
  assumes m: "within lo mid m" and h: "\<And>ex c. h ex = Some c \<Longrightarrow> within mid hi c"
    and le: "lo \<le> mid" "mid \<le> hi"
  shows "within lo hi (try_except m h)"
proof (cases "snd m")
  case (Return x)
  have "fst (try_except m h) = fst m @ fst (([], Return ()) :: unit comp)"
    by (simp add: fst_try_except Return)
  then show ?thesis by (rule within_appendI [OF m within_silent le])
next
  case (Raise ex)
  show ?thesis
  proof (cases "h ex")
    case None
    have "fst (try_except m h) = fst m @ fst (([], Return ()) :: unit comp)"
      by (simp add: fst_try_except Raise None)
    then show ?thesis by (rule within_appendI [OF m within_silent le])
  next
    case (Some c)
    then have c: "within mid hi c" by (rule h)
    have "fst (try_except m h) = fst m @ fst c"
      by (simp add: fst_try_except Raise Some)
    then show ?thesis by (rule within_appendI [OF m c le])
  qed
qed
lemma within_bind_same:
  "within k k m \<Longrightarrow> (\<And>x. within k k (f x)) \<Longrightarrow> within k k (bind m f)"
  by (rule within_bind [where mid = k]) simp_all

lemma within_try_except_same:
  "within k k m \<Longrightarrow> (\<And>ex c. h ex = Some c \<Longrightarrow> within k k c) \<Longrightarrow> within k k (try_except m h)"
  by (rule within_try_except [where mid = k]) simp_all

lemma within_steps_Cons:
  "within lo mid m \<Longrightarrow> within mid hi (steps ms) \<Longrightarrow> lo \<le> mid \<Longrightarrow> mid \<le> hi \<Longrightarrow>
   within lo hi (steps (m # ms))"
  unfolding steps.simps by (rule within_bind [where mid = mid])

lemma within_steps_same:
  "(\<And>m. m \<in> set ms \<Longrightarrow> within k k m) \<Longrightarrow> within k k (steps ms)"
proof (induction ms)
  case Nil
  show ?case unfolding steps.simps by (rule within_ret)
next
  case (Cons m ms)
  have 1: "within k k m" by (rule Cons.prems) simp
  have 2: "within k k (steps ms)" by (rule Cons.IH) (simp add: Cons.prems)
  show ?case unfolding steps.simps by (rule within_bind_same [OF 1 2])
qed

lemma within_execute_statements: "within 1 1 (execute_statements e k xs)"
proof (induction e k xs rule: execute_statements.induct)
  case (1 e k)
  show ?case unfolding execute_statements.simps by (rule within_ret)
next
  case (2 e k i rest)
  show ?case
  proof (cases "i \<noteq> [] \<and> strip i \<noteq> []")
    case True
    have c: "within 1 1 (call (DbExecute (strip i)) (db_execute e k (strip i)))"
      by (rule within_call) simp_all
    have "within 1 1 (bind (call (DbExecute (strip i)) (db_execute e k (strip i)))
             (\<lambda>_. execute_statements e (Suc k) rest))"
      by (rule within_bind_same [OF c]) (rule "2.IH"(1) [OF True])
    then show ?thesis using True by simp
  next
    case False
    then show ?thesis using "2.IH"(2) by auto
  qed
qed

lemma within_with_database:
  assumes "within 1 1 body" shows "within 1 1 (with_database e body)"
proof (cases "db_acquire e")
  case None
  obtain t r where b: "body = (t, r)" by (cases body)
  have "stages (DbAcquire # t @ [DbRelease]) = 1 # stages t @ [1]"
    by (simp add: stages_def)
  then show ?thesis using assms None b
    by (simp add: within_def with_database_def sorted_append)
next
  case (Some ex)
  then show ?thesis by (simp add: within_def with_database_def stages_def)
qed

lemma within_create_initial_database: "within 1 1 (create_initial_database e)"
proof (cases "schema_file e")
  case None
  then show ?thesis by (simp add: create_initial_database_def within_ret)
next
  case (Some data)
  have "within 1 1 (bind (with_database e (execute_statements e 0 (split CHR '';'' data)))
             (\<lambda>_. ret True))"
    by (intro within_bind_same within_with_database within_execute_statements within_ret)
  then show ?thesis by (simp add: create_initial_database_def Some)
qed

lemma within_config_enabled: "within lo hi (config_enabled b s)"
  by (simp add: config_enabled_def within_ret within_raise split: option.split)

lemma within_database_pool_except: "database_pool_except ex = Some c \<Longrightarrow> within lo hi c"
  by (cases ex) (auto simp add: database_pool_except_def within_raise)

lemma within_redis_pool_except: "redis_pool_except ex = Some c \<Longrightarrow> within lo hi c"
  by (cases ex) (auto simp add: redis_pool_except_def within_raise)

lemma within_start_database_pool: "within 1 1 (start_database_pool e b)"
proof -
  have 1: "within 1 1 (try_except (call DbCreatePool (db_create_pool e)) database_pool_except)"
    by (rule within_try_except_same) (simp_all add: within_call within_database_pool_except)
  have 2: "within 1 1 (discard (create_initial_database e))"
    unfolding discard_def
    by (intro within_bind_same within_create_initial_database within_ret)
  have 3: "within 1 1 (steps
           [info ''Creating database pool'',
            try_except (call DbCreatePool (db_create_pool e)) database_pool_except,
            info ''Created database pool successfully'',
            info ''Creating initial database tables'',
            discard (create_initial_database e)])"
    by (rule within_steps_same) (auto simp add: within_info 1 2 simp del: One_nat_def)
  show ?thesis
    unfolding start_database_pool_def
    by (rule within_bind_same [OF within_config_enabled]) (simp add: 3 within_info del: steps.simps One_nat_def)
qed

lemma within_start_redis_pool: "within 2 2 (start_redis_pool e b)"
proof -
  have 1: "within 2 2 (try_except (call RedisCreatePool (redis_create_pool e)) redis_pool_except)"
    by (rule within_try_except_same) (simp_all add: within_call within_redis_pool_except)
  have 3: "within 2 2 (steps
           [info ''Creating redis pool'',
            try_except (call RedisCreatePool (redis_create_pool e)) redis_pool_except,
            info ''Created redis pool successfully''])"
    by (rule within_steps_same) (auto simp add: within_info 1)
  show ?thesis
    unfolding start_redis_pool_def
    by (rule within_bind_same [OF within_config_enabled]) (simp add: 3 within_info del: steps.simps One_nat_def)
qed

subsection \<open>The phases of a run\<close>

lemma bind_ret_left: "bind (ret x) f = f x"
  by (cases "f x") (simp add: bind_def ret_def)

lemma bind_assoc: "bind (bind m f) g = bind m (\<lambda>x. bind (f x) g)"
proof (cases m)
  case (Pair t r)
  show ?thesis
  proof (cases r)
    case (Return x)
    obtain t1 r1 where f: "f x = (t1, r1)" by (cases "f x")
    show ?thesis
    proof (cases r1)
      case (Return y)
      obtain t2 r2 where g: "g y = (t2, r2)" by (cases "g y")
      show ?thesis using Pair \<open>r = Return x\<close> f Return g by (simp add: bind_def)
    next
      case (Raise ex)
      show ?thesis using Pair \<open>r = Return x\<close> f Raise by (simp add: bind_def)
    qed
  next
    case (Raise ex)
    show ?thesis using Pair Raise by (simp add: bind_def)
  qed
qed

lemma steps_append: "steps (xs @ ys) = bind (steps xs) (\<lambda>_. steps ys)"
  by (induction xs) (simp_all add: bind_ret_left bind_assoc)

lemma run_bot_phases:
  "run_bot e b = bind (startup e b) (\<lambda>_. bind (run_phase e) (\<lambda>_. teardown e b))"
proof -
  have "run_bot e b =
    steps ([select_event_loop e, start_database_pool e b, start_redis_pool e b,
            info ''Loading extensions... '', call LoadAllExtensions (load_all_extensions e)]
           @ (run_phase e # 
       [bind (config_enabled b ''database'') (\<lambda>enabled.
          if enabled
          then steps [info ''Closing database pool'', call DbPoolClose (db_pool_close e)]
          else ret ()),
        bind (config_enabled b ''redis'') (\<lambda>enabled.
          if enabled
          then steps [info ''Closing redis pool'', call RedisPoolClose (redis_pool_close e)]
          else ret ()),
        info ''Closing asyncio loop'',
        call LoopClose (loop_close e)]))"
    unfolding run_bot_def run_phase_def by simp
  also have "\<dots> = bind (startup e b) (\<lambda>_. bind (run_phase e) (\<lambda>_. teardown e b))"
    unfolding steps_append startup_def teardown_def steps.simps(2) [of "run_phase e"] ..
  finally show ?thesis .
qed

lemma within_bind_step:
  assumes "within lo k m" "\<And>x. within k' hi (f x)" "lo \<le> k" "k \<le> k'" "k' \<le> hi"
  shows "within lo hi (bind m f)"
proof (rule within_bind [where mid = k])
  show "within lo k m" by (rule assms(1))
  show "\<And>x. within k hi (f x)" by (rule within_mono [OF assms(2)]) (simp_all add: assms)
  show "lo \<le> k" by (rule assms(3))
  show "k \<le> hi" using assms(4,5) by simp
qed

lemma within_steps_step:
  "within lo k m \<Longrightarrow> within k' hi (steps ms) \<Longrightarrow> lo \<le> k \<Longrightarrow> k \<le> k' \<Longrightarrow> k' \<le> hi \<Longrightarrow>
   within lo hi (steps (m # ms))"
  unfolding steps.simps by (rule within_bind_step)

lemma within_try_except_step:
  assumes "within lo k m" "\<And>ex c. h ex = Some c \<Longrightarrow> within k' hi c"
    "lo \<le> k" "k \<le> k'" "k' \<le> hi"
  shows "within lo hi (try_except m h)"
proof (rule within_try_except [where mid = k])
  show "within lo k m" by (rule assms(1))
  show "\<And>ex c. h ex = Some c \<Longrightarrow> within k hi c"
    by (rule within_mono [OF assms(2)]) (simp_all add: assms)
  show "lo \<le> k" by (rule assms(3))
  show "k \<le> hi" using assms(4,5) by simp
qed

lemma within_select_event_loop: "within 0 0 (select_event_loop e)"
  by (simp add: select_event_loop_def within_ret within_call)

lemma within_startup: "within 0 3 (startup e b)"
proof -
  have 5: "within 3 3 (steps [call LoadAllExtensions (load_all_extensions e)])"
    by (rule within_steps_same) (simp add: within_call)
  have 4: "within 3 3 (steps [info ''Loading extensions... '',
       call LoadAllExtensions (load_all_extensions e)])"
    by (rule within_steps_same) (auto simp add: within_call within_info)
  have 3: "within 2 3 (steps [start_redis_pool e b, info ''Loading extensions... '',
       call LoadAllExtensions (load_all_extensions e)])"
    by (rule within_steps_step [OF within_start_redis_pool 4]) simp_all
  have 2: "within 1 3 (steps [start_database_pool e b, start_redis_pool e b,
       info ''Loading extensions... '', call LoadAllExtensions (load_all_extensions e)])"
    by (rule within_steps_step [OF within_start_database_pool 3]) simp_all
  show ?thesis
    unfolding startup_def
    by (rule within_steps_step [OF within_select_event_loop 2]) simp_all
qed

lemma within_keyboard_interrupt_except:
  "keyboard_interrupt_except e ex = Some c \<Longrightarrow> within 5 5 c"
proof (cases ex)
  case KeyboardInterrupt
  assume "keyboard_interrupt_except e ex = Some c"
  then have c: "c = steps [info ''Logging out bot'', call BotLogout (bot_logout e)]"
    using KeyboardInterrupt by (simp add: keyboard_interrupt_except_def)
  show ?thesis unfolding c
    by (rule within_steps_same) (auto simp add: within_call within_info)
qed (simp_all add: keyboard_interrupt_except_def)

lemma within_run_phase: "within 4 5 (run_phase e)"
proof -
  have 1: "within 4 4 (steps [info ''Running bot'', call BotStart (bot_start e)])"
    by (rule within_steps_same) (auto simp add: within_call within_info)
  show ?thesis
    unfolding run_phase_def
    by (rule within_try_except_step [OF 1 within_keyboard_interrupt_except]) simp_all
qed

lemma within_close_database:
  "within 6 6 (bind (config_enabled b ''database'') (\<lambda>enabled.
          if enabled
          then steps [info ''Closing database pool'', call DbPoolClose (db_pool_close e)]
          else ret ()))"
proof -
  have 1: "within 6 6 (steps [info ''Closing database pool'', call DbPoolClose (db_pool_close e)])"
    by (rule within_steps_same) (auto simp add: within_call within_info)
  show ?thesis
    by (rule within_bind_same [OF within_config_enabled]) (simp add: 1 within_ret del: steps.simps)
qed

lemma within_close_redis:
  "within 7 7 (bind (config_enabled b ''redis'') (\<lambda>enabled.
          if enabled
          then steps [info ''Closing redis pool'', call RedisPoolClose (redis_pool_close e)]
          else ret ()))"
proof -
  have 1: "within 7 7 (steps [info ''Closing redis pool'', call RedisPoolClose (redis_pool_close e)])"
    by (rule within_steps_same) (auto simp add: within_call within_info)
  show ?thesis
    by (rule within_bind_same [OF within_config_enabled]) (simp add: 1 within_ret del: steps.simps)
qed

lemma within_teardown: "within 6 8 (teardown e b)"
proof -
  have 1: "within 8 8 (steps [info ''Closing asyncio loop'', call LoopClose (loop_close e)])"
    by (rule within_steps_same) (auto simp add: within_call within_info)
  have 2: "within 7 8 (steps [bind (config_enabled b ''redis'') (\<lambda>enabled.
          if enabled
          then steps [info ''Closing redis pool'', call RedisPoolClose (redis_pool_close e)]
          else ret ()), info ''Closing asyncio loop'', call LoopClose (loop_close e)])"
    by (rule within_steps_step [OF within_close_redis 1]) simp_all
  show ?thesis
    unfolding teardown_def
    by (rule within_steps_step [OF within_close_database 2]) simp_all
qed

lemma within_run_bot: "within 0 8 (run_bot e b)"
proof -
  have 1: "within 4 8 (bind (run_phase e) (\<lambda>_. teardown e b))"
    by (rule within_bind_step [OF within_run_phase within_teardown]) simp_all
  show ?thesis
    unfolding run_bot_phases
    by (rule within_bind_step [OF within_startup 1]) simp_all
qed

lemma within_stage:
  "within lo hi m \<Longrightarrow> x \<in> set (fst m) \<Longrightarrow> is_call x \<Longrightarrow> lo \<le> stage x \<and> stage x \<le> hi"
  by (simp add: within_def stages_def)

lemma sorted_stages_run_bot: "sorted (stages (fst (run_bot e b)))"
  using within_run_bot [of e b] by (simp add: within_def)

subsection \<open>Start-up order\<close>

lemma snd_select_event_loop: "snd (select_event_loop e) = Return ()"
  by (simp add: select_event_loop_def call_def ret_def)

lemma run_bot_trace_cases:
  "(snd (startup e b) \<noteq> Return () \<and> fst (run_bot e b) = fst (startup e b))
   \<or> (snd (startup e b) = Return () \<and> snd (run_phase e) \<noteq> Return ()
        \<and> fst (run_bot e b) = fst (startup e b) @ fst (run_phase e))
   \<or> (snd (startup e b) = Return () \<and> snd (run_phase e) = Return ()
        \<and> fst (run_bot e b) = fst (startup e b) @ fst (run_phase e) @ fst (teardown e b))"
  by (cases "snd (startup e b)"; cases "snd (run_phase e)")
     (simp_all add: run_bot_phases fst_bind)

lemma snd_run_bot:
  "snd (run_bot e b) =
     (case snd (startup e b) of Raise x \<Rightarrow> Raise x
      | Return _ \<Rightarrow> (case snd (run_phase e) of Raise x \<Rightarrow> Raise x
                     | Return _ \<Rightarrow> snd (teardown e b)))"
  by (simp add: run_bot_phases snd_bind split: outcome.split)

lemma fst_startup:
  "fst (startup e b) =
     fst (select_event_loop e) @ fst (start_database_pool e b) @
     (case snd (start_database_pool e b) of Raise _ \<Rightarrow> []
      | Return _ \<Rightarrow> fst (start_redis_pool e b) @
          (case snd (start_redis_pool e b) of Raise _ \<Rightarrow> []
           | Return _ \<Rightarrow> [LogInfo ''Loading extensions... '', LoadAllExtensions]))"
  by (simp add: startup_def fst_bind snd_bind snd_select_event_loop info_def call_def ret_def
      split: outcome.split)

lemma snd_startup:
  "snd (startup e b) =
     (case snd (start_database_pool e b) of Raise x \<Rightarrow> Raise x
      | Return _ \<Rightarrow>
          (case snd (start_redis_pool e b) of Raise x \<Rightarrow> Raise x
           | Return _ \<Rightarrow> (case load_all_extensions e of None \<Rightarrow> Return () | Some x \<Rightarrow> Raise x)))"
  by (simp add: startup_def fst_bind snd_bind snd_select_event_loop info_def call_def ret_def
      split: outcome.split option.split)

lemma run_phase_eq:
  "run_phase e =
     (case bot_start e of
        None \<Rightarrow> ([LogInfo ''Running bot'', BotStart], Return ())
      | Some KeyboardInterrupt \<Rightarrow>
          ([LogInfo ''Running bot'', BotStart, LogInfo ''Logging out bot'', BotLogout],
           case bot_logout e of None \<Rightarrow> Return () | Some x \<Rightarrow> Raise x)
      | Some x \<Rightarrow> ([LogInfo ''Running bot'', BotStart], Raise x))"
  by (simp add: run_phase_def try_except_def keyboard_interrupt_except_def info_def call_def
      bind_def ret_def split: option.split pyexn.split)

lemma startup_stage: "x \<in> set (fst (startup e b)) \<Longrightarrow> is_call x \<Longrightarrow> stage x \<le> 3"
  using within_stage [OF within_startup] by blast

lemma startup_not_later:
  "BotStart \<notin> set (fst (startup e b))" "BotLogout \<notin> set (fst (startup e b))"
  "DbPoolClose \<notin> set (fst (startup e b))" "RedisPoolClose \<notin> set (fst (startup e b))"
  "LoopClose \<notin> set (fst (startup e b))"
  using startup_stage [of BotStart e b] startup_stage [of BotLogout e b]
    startup_stage [of DbPoolClose e b] startup_stage [of RedisPoolClose e b]
    startup_stage [of LoopClose e b]
  by auto

lemma BotStart_in_run_phase: "BotStart \<in> set (fst (run_phase e))"
  by (simp add: run_phase_eq split: option.split pyexn.split)

lemma BotStart_iff_startup: "BotStart \<in> set (fst (run_bot e b)) \<longleftrightarrow> snd (startup e b) = Return ()"
  using run_bot_trace_cases [of e b] startup_not_later(1) [of e b] BotStart_in_run_phase [of e]
  by auto

lemma startup_Return_iff:
  "snd (startup e b) = Return () \<longleftrightarrow>
     snd (start_database_pool e b) = Return () \<and> snd (start_redis_pool e b) = Return ()
     \<and> load_all_extensions e = None"
  by (simp add: snd_startup split: outcome.split option.split)

lemma fst_run_phase_prefix:
  "\<exists>rest. fst (run_phase e) = [LogInfo ''Running bot'', BotStart] @ rest"
  by (simp add: run_phase_eq split: option.split pyexn.split)

lemma run_bot_example_env:
  "run_bot example_env example_bot =
    ([LogInfo ''Creating database pool'', DbCreatePool,
   LogInfo ''Created database pool successfully'',
   LogInfo ''Creating initial database tables'', DbAcquire,
   DbExecute ''CREATE TABLE a(x int)'', DbExecute ''CREATE TABLE b(y int)'',
   DbRelease, LogInfo ''Creating redis pool'', RedisCreatePool,
   LogInfo ''Created redis pool successfully'',
   LogInfo ''Loading extensions... '', LoadAllExtensions,
   LogInfo ''Running bot'', BotStart, LogInfo ''Closing database pool'',
   DbPoolClose, LogInfo ''Closing redis pool'', RedisPoolClose,
   LogInfo ''Closing asyncio loop'', LoopClose],
  Return ())"
  by code_simp

text \<open>
  C4. In every run the calls are made in stage order: all of the database start (pool
  creation and schema statements) before the redis start, before the extensions, before
  \<^verbatim>\<open>bot.start()\<close>. The run operation is invoked exactly when both starters and the
  extension loading have returned, and the trace then begins with their complete traces,
  one after the other.
\<close>

theorem run_bot_startup_order:
  "sorted (stages (fst (run_bot e b)))
   \<and> (BotStart \<in> set (fst (run_bot e b)) \<longleftrightarrow>
        snd (start_database_pool e b) = Return () \<and> snd (start_redis_pool e b) = Return ()
        \<and> load_all_extensions e = None)
   \<and> (BotStart \<in> set (fst (run_bot e b)) \<longrightarrow>
        (\<exists>rest. fst (run_bot e b) =
           fst (select_event_loop e) @ fst (start_database_pool e b)
           @ fst (start_redis_pool e b)
           @ [LogInfo ''Loading extensions... '', LoadAllExtensions,
              LogInfo ''Running bot'', BotStart] @ rest))"
proof -
  have 1: "sorted (stages (fst (run_bot e b)))" by (rule sorted_stages_run_bot)
  have 2: "BotStart \<in> set (fst (run_bot e b)) \<longleftrightarrow>
        snd (start_database_pool e b) = Return () \<and> snd (start_redis_pool e b) = Return ()
        \<and> load_all_extensions e = None"
    by (simp add: BotStart_iff_startup startup_Return_iff)
  have 3: "\<exists>rest. fst (run_bot e b) =
           fst (select_event_loop e) @ fst (start_database_pool e b)
           @ fst (start_redis_pool e b)
           @ [LogInfo ''Loading extensions... '', LoadAllExtensions,
              LogInfo ''Running bot'', BotStart] @ rest"
    if s: "BotStart \<in> set (fst (run_bot e b))"
  proof -
    from s have r: "snd (startup e b) = Return ()" by (simp add: BotStart_iff_startup)
    then have d: "snd (start_database_pool e b) = Return ()"
      and re: "snd (start_redis_pool e b) = Return ()"
      by (simp_all add: startup_Return_iff)
    have f: "fst (startup e b) = fst (select_event_loop e) @ fst (start_database_pool e b)
           @ fst (start_redis_pool e b) @ [LogInfo ''Loading extensions... '', LoadAllExtensions]"
      by (simp add: fst_startup d re)
    obtain rest where rp: "fst (run_phase e) = [LogInfo ''Running bot'', BotStart] @ rest"
      using fst_run_phase_prefix by blast
    from run_bot_trace_cases [of e b] r
    consider "fst (run_bot e b) = fst (startup e b) @ fst (run_phase e)"
      | "fst (run_bot e b) = fst (startup e b) @ fst (run_phase e) @ fst (teardown e b)"
      by auto
    then show ?thesis
    proof cases
      case 1
      then show ?thesis by (simp add: f rp)
    next
      case 2
      then show ?thesis by (simp add: f rp)
    qed
  qed
  show ?thesis using 1 2 3 by blast
qed

theorem run_bot_startup_order_witness:
  "sorted (stages (fst (run_bot example_env example_bot)))
   \<and> BotStart \<in> set (fst (run_bot example_env example_bot))
   \<and> stages (fst (run_bot example_env example_bot)) = [1, 1, 1, 1, 1, 2, 3, 4, 6, 7, 8]"
  using run_bot_startup_order [of example_env example_bot]
  by (simp add: run_bot_example_env stages_def)

subsection \<open>Clean-up order and interruption\<close>

lemma config_enabled_Some:
  "config b s = Some d \<Longrightarrow> d ''enabled'' = Some v \<Longrightarrow> config_enabled b s = ret v"
  by (simp add: config_enabled_def)

lemma teardown_both_enabled:
  assumes "config b ''database'' = Some d" "d ''enabled'' = Some True"
    and "config b ''redis'' = Some r" "r ''enabled'' = Some True"
  shows "fst (teardown e b) =
     [LogInfo ''Closing database pool'', DbPoolClose] @
     (case db_pool_close e of Some _ \<Rightarrow> []
      | None \<Rightarrow> [LogInfo ''Closing redis pool'', RedisPoolClose] @
          (case redis_pool_close e of Some _ \<Rightarrow> []
           | None \<Rightarrow> [LogInfo ''Closing asyncio loop'', LoopClose]))"
  by (simp add: teardown_def config_enabled_Some [OF assms(1,2)] config_enabled_Some [OF assms(3,4)]
      bind_ret_left info_def call_def bind_def ret_def split: option.split)

lemma run_phase_no_close:
  "DbPoolClose \<notin> set (fst (run_phase e))" "RedisPoolClose \<notin> set (fst (run_phase e))"
  by (simp_all add: run_phase_eq split: option.split pyexn.split)

lemma run_phase_Return_iff:
  "snd (run_phase e) = Return () \<longleftrightarrow>
     bot_start e = None \<or> (bot_start e = Some KeyboardInterrupt \<and> bot_logout e = None)"
  by (auto simp add: run_phase_eq split: option.split pyexn.split)

lemma takeWhile_skip:
  "(\<And>x. x \<in> set xs \<Longrightarrow> P x) \<Longrightarrow> takeWhile P (xs @ ys) = xs @ takeWhile P ys"
  by (simp add: takeWhile_append2)

lemma reach_teardown:
  assumes en: "config b ''database'' = Some d" "d ''enabled'' = Some True"
    "config b ''redis'' = Some r" "r ''enabled'' = Some True"
    and s: "snd (startup e b) = Return ()" and rp: "snd (run_phase e) = Return ()"
  shows "DbPoolClose \<in> set (takeWhile (\<lambda>x. x \<noteq> RedisPoolClose) (fst (run_bot e b)))"
proof -
  from run_bot_trace_cases [of e b] s rp
  have t: "fst (run_bot e b) = (fst (startup e b) @ fst (run_phase e)) @ fst (teardown e b)"
    by auto
  have "\<And>x. x \<in> set (fst (startup e b) @ fst (run_phase e)) \<Longrightarrow> x \<noteq> RedisPoolClose"
    using startup_not_later(4) [of e b] run_phase_no_close(2) [of e] by auto
  then have "takeWhile (\<lambda>x. x \<noteq> RedisPoolClose) (fst (run_bot e b)) =
      (fst (startup e b) @ fst (run_phase e)) @ takeWhile (\<lambda>x. x \<noteq> RedisPoolClose) (fst (teardown e b))"
    unfolding t by (rule takeWhile_skip)
  moreover have "DbPoolClose \<in> set (takeWhile (\<lambda>x. x \<noteq> RedisPoolClose) (fst (teardown e b)))"
    by (simp add: teardown_both_enabled [OF en])
  ultimately show ?thesis by simp
qed

lemma within_teardown_stage: "x \<in> set (fst (teardown e b)) \<Longrightarrow> is_call x \<Longrightarrow> 6 \<le> stage x"
  using within_stage [OF within_teardown] by blast

lemma RedisPoolClose_reached:
  assumes "RedisPoolClose \<in> set (fst (run_bot e b))"
  shows "snd (startup e b) = Return () \<and> snd (run_phase e) = Return ()"
  using run_bot_trace_cases [of e b] assms startup_not_later(4) [of e b]
    run_phase_no_close(2) [of e]
  by auto

lemma interrupted_trace:
  assumes s: "snd (startup e b) = Return ()" and k: "bot_start e = Some KeyboardInterrupt"
  shows "count_list (fst (run_bot e b)) BotLogout = 1
       \<and> BotLogout \<in> set (takeWhile (\<lambda>x. x \<noteq> DbPoolClose \<and> x \<noteq> RedisPoolClose)
                            (fst (run_bot e b)))"
proof -
  have rp: "fst (run_phase e) =
      [LogInfo ''Running bot'', BotStart, LogInfo ''Logging out bot'', BotLogout]"
    by (simp add: run_phase_eq k)
  have st: "BotLogout \<notin> set (fst (startup e b))" by (rule startup_not_later(2))
  have td: "BotLogout \<notin> set (fst (teardown e b))"
    using within_teardown_stage [of BotLogout e b] by auto
  have skip: "\<And>x. x \<in> set (fst (startup e b)) \<Longrightarrow> x \<noteq> DbPoolClose \<and> x \<noteq> RedisPoolClose"
    using startup_not_later(3,4) [of e b] by auto
  from run_bot_trace_cases [of e b] s
  consider "fst (run_bot e b) = fst (startup e b) @ fst (run_phase e)"
    | "fst (run_bot e b) = fst (startup e b) @ fst (run_phase e) @ fst (teardown e b)"
    by auto
  then show ?thesis
  proof cases
    case 1
    have "count_list (fst (run_bot e b)) BotLogout = 1"
      using st by (simp add: 1 rp count_list_0_iff)
    moreover have "BotLogout \<in> set (takeWhile (\<lambda>x. x \<noteq> DbPoolClose \<and> x \<noteq> RedisPoolClose)
                            (fst (run_bot e b)))"
      unfolding 1 by (simp add: takeWhile_skip [of _ _ , OF skip] rp)
    ultimately show ?thesis by simp
  next
    case 2
    have "count_list (fst (run_bot e b)) BotLogout = 1"
      using st td by (simp add: 2 rp count_list_0_iff)
    moreover have "BotLogout \<in> set (takeWhile (\<lambda>x. x \<noteq> DbPoolClose \<and> x \<noteq> RedisPoolClose)
                            (fst (run_bot e b)))"
      unfolding 2 by (simp add: takeWhile_skip [of _ _ , OF skip] rp)
    ultimately show ?thesis by simp
  qed
qed

lemma run_bot_interrupted_env:
  "run_bot interrupted_env example_bot =
    ([LogInfo ''Creating database pool'', DbCreatePool,
      LogInfo ''Created database pool successfully'',
      LogInfo ''Creating initial database tables'', DbAcquire,
      DbExecute ''CREATE TABLE a(x int)'', DbExecute ''CREATE TABLE b(y int)'',
      DbRelease, LogInfo ''Creating redis pool'', RedisCreatePool,
      LogInfo ''Created redis pool successfully'',
      LogInfo ''Loading extensions... '', LoadAllExtensions,
      LogInfo ''Running bot'', BotStart, LogInfo ''Logging out bot'', BotLogout,
      LogInfo ''Closing database pool'', DbPoolClose,
      LogInfo ''Closing redis pool'', RedisPoolClose,
      LogInfo ''Closing asyncio loop'', LoopClose],
     Return ())"
  by code_simp

lemma run_bot_database_only:
  "run_bot example_env database_only_bot =
    ([LogInfo ''Creating database pool'', DbCreatePool,
      LogInfo ''Created database pool successfully'',
      LogInfo ''Creating initial database tables'', DbAcquire,
      DbExecute ''CREATE TABLE a(x int)'', DbExecute ''CREATE TABLE b(y int)'',
      DbRelease, LogInfo ''Redis connection has been disabled'',
      LogInfo ''Loading extensions... '', LoadAllExtensions,
      LogInfo ''Running bot'', BotStart,
      LogInfo ''Closing database pool'', DbPoolClose,
      LogInfo ''Closing asyncio loop'', LoopClose],
     Return ())"
  by code_simp

lemma run_bot_redis_only:
  "run_bot example_env redis_only_bot =
    ([LogInfo ''Database connection has been disabled'',
      LogInfo ''Creating redis pool'', RedisCreatePool,
      LogInfo ''Created redis pool successfully'',
      LogInfo ''Loading extensions... '', LoadAllExtensions,
      LogInfo ''Running bot'', BotStart,
      LogInfo ''Closing redis pool'', RedisPoolClose,
      LogInfo ''Closing asyncio loop'', LoopClose],
     Return ())"
  by code_simp

text \<open>
  C5. With both resources enabled, in every run that reaches the clean-up (the start-up
  has returned and \<^verbatim>\<open>bot.start()\<close> has returned or was interrupted and logged out), and
  in every run in which the redis pool is closed at all, the database pool is closed
  before the redis pool. When \<^verbatim>\<open>bot.start()\<close> is interrupted by KeyboardInterrupt, the
  logout is called exactly once, before any pool is closed.
\<close>

theorem run_bot_teardown_order:
  "(config b ''database'' = Some d \<and> d ''enabled'' = Some True
      \<and> config b ''redis'' = Some r \<and> r ''enabled'' = Some True
      \<and> (RedisPoolClose \<in> set (fst (run_bot e b))
          \<or> BotStart \<in> set (fst (run_bot e b))
             \<and> (bot_start e = None
                \<or> bot_start e = Some KeyboardInterrupt \<and> bot_logout e = None))
    \<longrightarrow> DbPoolClose \<in> set (takeWhile (\<lambda>x. x \<noteq> RedisPoolClose) (fst (run_bot e b))))
   \<and> (BotStart \<in> set (fst (run_bot e b)) \<and> bot_start e = Some KeyboardInterrupt
    \<longrightarrow> count_list (fst (run_bot e b)) BotLogout = 1
        \<and> BotLogout \<in> set (takeWhile (\<lambda>x. x \<noteq> DbPoolClose \<and> x \<noteq> RedisPoolClose)
                             (fst (run_bot e b))))"
proof (intro conjI impI)
  assume a: "config b ''database'' = Some d \<and> d ''enabled'' = Some True
      \<and> config b ''redis'' = Some r \<and> r ''enabled'' = Some True
      \<and> (RedisPoolClose \<in> set (fst (run_bot e b))
          \<or> BotStart \<in> set (fst (run_bot e b))
             \<and> (bot_start e = None
                \<or> bot_start e = Some KeyboardInterrupt \<and> bot_logout e = None))"
  then have en: "config b ''database'' = Some d" "d ''enabled'' = Some True"
    "config b ''redis'' = Some r" "r ''enabled'' = Some True"
    by simp_all
  from a have "snd (startup e b) = Return () \<and> snd (run_phase e) = Return ()"
    using RedisPoolClose_reached [of e b]
    by (auto simp add: BotStart_iff_startup run_phase_Return_iff)
  then show "DbPoolClose \<in> set (takeWhile (\<lambda>x. x \<noteq> RedisPoolClose) (fst (run_bot e b)))"
    using reach_teardown [OF en] by simp
next
  assume a: "BotStart \<in> set (fst (run_bot e b)) \<and> bot_start e = Some KeyboardInterrupt"
  then have s: "snd (startup e b) = Return ()" and k: "bot_start e = Some KeyboardInterrupt"
    by (simp_all add: BotStart_iff_startup)
  show "count_list (fst (run_bot e b)) BotLogout = 1"
    using interrupted_trace [OF s k] by simp
  show "BotLogout \<in> set (takeWhile (\<lambda>x. x \<noteq> DbPoolClose \<and> x \<noteq> RedisPoolClose)
                             (fst (run_bot e b)))"
    using interrupted_trace [OF s k] by simp
qed

theorem run_bot_teardown_order_witness:
  "DbPoolClose \<in> set (takeWhile (\<lambda>x. x \<noteq> RedisPoolClose)
                         (fst (run_bot interrupted_env example_bot)))
   \<and> count_list (fst (run_bot interrupted_env example_bot)) BotLogout = 1
   \<and> BotLogout \<in> set (takeWhile (\<lambda>x. x \<noteq> DbPoolClose \<and> x \<noteq> RedisPoolClose)
                             (fst (run_bot interrupted_env example_bot)))
   \<and> RedisPoolClose \<in> set (fst (run_bot interrupted_env example_bot))"
proof -
  have 1: "config example_bot ''database'' = Some [''enabled'' \<mapsto> True]"
    and 2: "config example_bot ''redis'' = Some [''enabled'' \<mapsto> True]"
    by (simp_all add: example_bot_def)
  have 3: "RedisPoolClose \<in> set (fst (run_bot interrupted_env example_bot))"
    and 4: "BotStart \<in> set (fst (run_bot interrupted_env example_bot))"
    by (simp_all add: run_bot_interrupted_env)
  have 5: "bot_start interrupted_env = Some KeyboardInterrupt"
    by (simp add: interrupted_env_def)
  show ?thesis
    using run_bot_teardown_order [of example_bot "[''enabled'' \<mapsto> True]" "[''enabled'' \<mapsto> True]" interrupted_env]
      1 2 3 4 5
    by simp
qed

subsection \<open>Disabled resources\<close>

lemma in_steps: "x \<in> set (fst (steps ms)) \<Longrightarrow> \<exists>m \<in> set ms. x \<in> set (fst m)"
proof (induction ms)
  case Nil
  then show ?case by (simp add: ret_def)
next
  case (Cons m ms)
  then show ?case by (cases "snd m") (auto simp add: fst_bind)
qed

lemma fst_ret: "fst (ret x) = []"
  by (simp add: ret_def)

lemma run_bot_events:
  "x \<in> set (fst (run_bot e b)) \<Longrightarrow>
   x \<in> set (fst (startup e b)) \<or> x \<in> set (fst (run_phase e)) \<or> x \<in> set (fst (teardown e b))"
  using run_bot_trace_cases [of e b] by auto

lemma start_database_pool_disabled:
  "config b ''database'' = Some d \<Longrightarrow> d ''enabled'' = Some False \<Longrightarrow>
   start_database_pool e b = ([LogInfo ''Database connection has been disabled''], Return ())"
  by (simp add: start_database_pool_def config_enabled_def bind_ret_left info_def del: steps.simps)

lemma start_redis_pool_disabled:
  "config b ''redis'' = Some r \<Longrightarrow> r ''enabled'' = Some False \<Longrightarrow>
   start_redis_pool e b = ([LogInfo ''Redis connection has been disabled''], Return ())"
  by (simp add: start_redis_pool_def config_enabled_def bind_ret_left info_def del: steps.simps)

lemma select_event_loop_events: "x \<in> set (fst (select_event_loop e)) \<Longrightarrow> x = SetProactorEventLoop"
  by (simp add: select_event_loop_def call_def ret_def split: if_splits)

lemma startup_events:
  "x \<in> set (fst (startup e b)) \<Longrightarrow>
   x = SetProactorEventLoop \<or> x \<in> set (fst (start_database_pool e b))
   \<or> x \<in> set (fst (start_redis_pool e b)) \<or> x = LogInfo ''Loading extensions... ''
   \<or> x = LoadAllExtensions"
  using select_event_loop_events [of x e]
  by (auto simp add: fst_startup split: outcome.splits)

lemma db_stage: "x \<in> set (fst (start_database_pool e b)) \<Longrightarrow> is_call x \<Longrightarrow> stage x = 1"
  using within_stage [OF within_start_database_pool, of x e b] by simp

lemma redis_stage: "x \<in> set (fst (start_redis_pool e b)) \<Longrightarrow> is_call x \<Longrightarrow> stage x = 2"
  using within_stage [OF within_start_redis_pool, of x e b] by simp

lemma run_phase_stage: "x \<in> set (fst (run_phase e)) \<Longrightarrow> is_call x \<Longrightarrow> 4 \<le> stage x"
  using within_stage [OF within_run_phase] by blast

lemma db_disabled_no_create:
  assumes "config b ''database'' = Some d" "d ''enabled'' = Some False"
  shows "DbCreatePool \<notin> set (fst (run_bot e b))"
proof
  assume "DbCreatePool \<in> set (fst (run_bot e b))"
  then consider "DbCreatePool \<in> set (fst (startup e b))" | "DbCreatePool \<in> set (fst (run_phase e))"
    | "DbCreatePool \<in> set (fst (teardown e b))"
    using run_bot_events by blast
  then show False
  proof cases
    case 1
    then show False
      using startup_events [of DbCreatePool e b] redis_stage [of DbCreatePool e b]
      by (auto simp add: start_database_pool_disabled [OF assms])
  next
    case 2
    then show False using run_phase_stage [of DbCreatePool e] by simp
  next
    case 3
    then show False using within_teardown_stage [of DbCreatePool e b] by simp
  qed
qed

lemma redis_disabled_no_create:
  assumes "config b ''redis'' = Some r" "r ''enabled'' = Some False"
  shows "RedisCreatePool \<notin> set (fst (run_bot e b))"
proof
  assume "RedisCreatePool \<in> set (fst (run_bot e b))"
  then consider "RedisCreatePool \<in> set (fst (startup e b))"
    | "RedisCreatePool \<in> set (fst (run_phase e))"
    | "RedisCreatePool \<in> set (fst (teardown e b))"
    using run_bot_events by blast
  then show False
  proof cases
    case 1
    then show False
      using startup_events [of RedisCreatePool e b] db_stage [of RedisCreatePool e b]
      by (auto simp add: start_redis_pool_disabled [OF assms])
  next
    case 2
    then show False using run_phase_stage [of RedisCreatePool e] by simp
  next
    case 3
    then show False using within_teardown_stage [of RedisCreatePool e b] by simp
  qed
qed

lemma close_database_stage:
  "x \<in> set (fst (bind (config_enabled b ''database'') (\<lambda>enabled.
          if enabled
          then steps [info ''Closing database pool'', call DbPoolClose (db_pool_close e)]
          else ret ()))) \<Longrightarrow> is_call x \<Longrightarrow> stage x = 6"
  using within_stage [OF within_close_database, of x b e] by simp

lemma close_redis_stage:
  "x \<in> set (fst (bind (config_enabled b ''redis'') (\<lambda>enabled.
          if enabled
          then steps [info ''Closing redis pool'', call RedisPoolClose (redis_pool_close e)]
          else ret ()))) \<Longrightarrow> is_call x \<Longrightarrow> stage x = 7"
  using within_stage [OF within_close_redis, of x b e] by simp

lemma db_disabled_no_close:
  assumes "config b ''database'' = Some d" "d ''enabled'' = Some False"
  shows "DbPoolClose \<notin> set (fst (run_bot e b))"
proof
  assume "DbPoolClose \<in> set (fst (run_bot e b))"
  then have "DbPoolClose \<in> set (fst (teardown e b))"
    using run_bot_events [of DbPoolClose e b] startup_not_later(3) [of e b]
      run_phase_no_close(1) [of e]
    by blast
  then obtain m where m: "m \<in> set
       [bind (config_enabled b ''database'') (\<lambda>enabled.
          if enabled
          then steps [info ''Closing database pool'', call DbPoolClose (db_pool_close e)]
          else ret ()),
        bind (config_enabled b ''redis'') (\<lambda>enabled.
          if enabled
          then steps [info ''Closing redis pool'', call RedisPoolClose (redis_pool_close e)]
          else ret ()),
        info ''Closing asyncio loop'',
        call LoopClose (loop_close e)]" and x: "DbPoolClose \<in> set (fst m)"
    unfolding teardown_def using in_steps by blast
  have ce: "config_enabled b ''database'' = ret False"
    by (rule config_enabled_Some [OF assms])
  from m x show False
    using close_redis_stage [of DbPoolClose b e]
    by (auto simp add: ce bind_ret_left fst_ret info_def call_def simp del: steps.simps)
qed

lemma redis_disabled_no_close:
  assumes "config b ''redis'' = Some r" "r ''enabled'' = Some False"
  shows "RedisPoolClose \<notin> set (fst (run_bot e b))"
proof
  assume "RedisPoolClose \<in> set (fst (run_bot e b))"
  then have "RedisPoolClose \<in> set (fst (teardown e b))"
    using run_bot_events [of RedisPoolClose e b] startup_not_later(4) [of e b]
      run_phase_no_close(2) [of e]
    by blast
  then obtain m where m: "m \<in> set
       [bind (config_enabled b ''database'') (\<lambda>enabled.
          if enabled
          then steps [info ''Closing database pool'', call DbPoolClose (db_pool_close e)]
          else ret ()),
        bind (config_enabled b ''redis'') (\<lambda>enabled.
          if enabled
          then steps [info ''Closing redis pool'', call RedisPoolClose (redis_pool_close e)]
          else ret ()),
        info ''Closing asyncio loop'',
        call LoopClose (loop_close e)]" and x: "RedisPoolClose \<in> set (fst m)"
    unfolding teardown_def using in_steps by blast
  have ce: "config_enabled b ''redis'' = ret False"
    by (rule config_enabled_Some [OF assms])
  from m x show False
    using close_database_stage [of RedisPoolClose b e]
    by (auto simp add: ce bind_ret_left fst_ret info_def call_def simp del: steps.simps)
qed

text \<open>
  C8. A starter whose resource is disabled logs that it is disabled and returns; in the
  whole run the pool of a disabled resource is never created and never closed.
\<close>

theorem disabled_resource_skipped:
  "(config b ''database'' = Some d \<and> d ''enabled'' = Some False \<longrightarrow>
      start_database_pool e b = ([LogInfo ''Database connection has been disabled''], Return ())
      \<and> count_list (fst (run_bot e b)) DbCreatePool = 0
      \<and> count_list (fst (run_bot e b)) DbPoolClose = 0)
   \<and> (config b ''redis'' = Some r \<and> r ''enabled'' = Some False \<longrightarrow>
      start_redis_pool e b = ([LogInfo ''Redis connection has been disabled''], Return ())
      \<and> count_list (fst (run_bot e b)) RedisCreatePool = 0
      \<and> count_list (fst (run_bot e b)) RedisPoolClose = 0)"
  using start_database_pool_disabled [of b d e] start_redis_pool_disabled [of b r e]
    db_disabled_no_create [of b d e] db_disabled_no_close [of b d e]
    redis_disabled_no_create [of b r e] redis_disabled_no_close [of b r e]
  by (simp add: count_list_0_iff)

theorem disabled_resource_skipped_witness:
  "start_redis_pool example_env database_only_bot =
      ([LogInfo ''Redis connection has been disabled''], Return ())
   \<and> count_list (fst (run_bot example_env database_only_bot)) RedisCreatePool = 0
   \<and> count_list (fst (run_bot example_env database_only_bot)) RedisPoolClose = 0
   \<and> start_database_pool example_env redis_only_bot =
      ([LogInfo ''Database connection has been disabled''], Return ())
   \<and> count_list (fst (run_bot example_env redis_only_bot)) DbCreatePool = 0
   \<and> count_list (fst (run_bot example_env redis_only_bot)) DbPoolClose = 0
   \<and> count_list (fst (run_bot example_env database_only_bot)) DbPoolClose = 1"
proof -
  have 1: "config database_only_bot ''redis'' = Some [''enabled'' \<mapsto> False]"
    and 2: "config redis_only_bot ''database'' = Some [''enabled'' \<mapsto> False]"
    and 3: "config database_only_bot ''database'' = Some [''enabled'' \<mapsto> True]"
    and 4: "config redis_only_bot ''redis'' = Some [''enabled'' \<mapsto> True]"
    by (simp_all add: database_only_bot_def redis_only_bot_def)
  have 5: "count_list (fst (run_bot example_env database_only_bot)) DbPoolClose = 1"
    by (simp add: run_bot_database_only)
  show ?thesis
    using disabled_resource_skipped [of database_only_bot "[''enabled'' \<mapsto> True]" example_env "[''enabled'' \<mapsto> False]"]
      disabled_resource_skipped [of redis_only_bot "[''enabled'' \<mapsto> False]" example_env "[''enabled'' \<mapsto> True]"]
      1 2 3 4 5
    by simp
qed

subsection \<open>Failures of pool creation\<close>

lemma config_enabled_True:
  "config b s = Some d \<Longrightarrow> d ''enabled'' = Some True \<Longrightarrow> config_enabled b s = ret True"
  by (rule config_enabled_Some)

lemma start_database_pool_fails:
  assumes "config b ''database'' = Some d" "d ''enabled'' = Some True"
    and "db_create_pool e = Some ex" "is_Exception ex"
  shows "start_database_pool e b =
     ([LogInfo ''Creating database pool'', DbCreatePool],
      Raise (Exception
        (case ex of
           KeyError _ \<Rightarrow>
             ''KeyError creating database pool - is there a 'database' object in the config?''
         | ConnectionRefusedError _ \<Rightarrow>
             ''ConnectionRefusedError creating database pool - did you set the right information in the config, and is the database running?''
         | _ \<Rightarrow> ''Error creating database pool'')))"
  using assms(3,4)
  by (cases ex)
     (simp_all add: start_database_pool_def config_enabled_True [OF assms(1,2)] bind_ret_left
       info_def call_def try_except_def database_pool_except_def raise_def bind_def ret_def)

lemma start_redis_pool_fails:
  assumes "config b ''redis'' = Some r" "r ''enabled'' = Some True"
    and "redis_create_pool e = Some ex" "is_Exception ex"
  shows "start_redis_pool e b =
     ([LogInfo ''Creating redis pool'', RedisCreatePool],
      Raise
        (case ex of
           KeyError _ \<Rightarrow>
             KeyError ''KeyError creating redis pool - is there a 'redis' object in the config?''
         | ConnectionRefusedError _ \<Rightarrow>
             ConnectionRefusedError
               ''ConnectionRefusedError creating redis pool - did you set the right information in the config, and is the database running?''
         | _ \<Rightarrow> Exception ''Error creating redis pool''))"
  using assms(3,4)
  by (cases ex)
     (simp_all add: start_redis_pool_def config_enabled_True [OF assms(1,2)] bind_ret_left
       info_def call_def try_except_def redis_pool_except_def raise_def bind_def ret_def)

lemma run_bot_database_raises:
  assumes "snd (start_database_pool e b) = Raise x"
  shows "run_bot e b =
     (fst (select_event_loop e) @ fst (start_database_pool e b), Raise x)"
proof (rule prod_eqI)
  have s: "snd (startup e b) = Raise x" by (simp add: snd_startup assms)
  then have "fst (run_bot e b) = fst (startup e b)"
    using run_bot_trace_cases [of e b] by simp
  then show "fst (run_bot e b) =
      fst (fst (select_event_loop e) @ fst (start_database_pool e b), Raise x :: unit outcome)"
    by (simp add: fst_startup assms)
  show "snd (run_bot e b) =
      snd (fst (select_event_loop e) @ fst (start_database_pool e b), Raise x :: unit outcome)"
    by (simp add: snd_run_bot s)
qed

lemma run_bot_redis_raises:
  assumes "snd (start_database_pool e b) = Return ()" "snd (start_redis_pool e b) = Raise x"
  shows "run_bot e b =
     (fst (select_event_loop e) @ fst (start_database_pool e b) @ fst (start_redis_pool e b),
      Raise x)"
proof (rule prod_eqI)
  have s: "snd (startup e b) = Raise x" by (simp add: snd_startup assms)
  then have "fst (run_bot e b) = fst (startup e b)"
    using run_bot_trace_cases [of e b] by simp
  then show "fst (run_bot e b) =
      fst (fst (select_event_loop e) @ fst (start_database_pool e b)
           @ fst (start_redis_pool e b), Raise x :: unit outcome)"
    by (simp add: fst_startup assms)
  show "snd (run_bot e b) =
      snd (fst (select_event_loop e) @ fst (start_database_pool e b)
           @ fst (start_redis_pool e b), Raise x :: unit outcome)"
    by (simp add: snd_run_bot s)
qed

lemma select_event_loop_count:
  "count_list (fst (select_event_loop e)) DbCreatePool = 0"
  "count_list (fst (select_event_loop e)) RedisCreatePool = 0"
  by (simp_all add: select_event_loop_def call_def ret_def)

lemma database_count_redis: "count_list (fst (start_database_pool e b)) RedisCreatePool = 0"
  using db_stage [of RedisCreatePool e b] by (auto simp add: count_list_0_iff)

text \<open>
  C3. With the resource enabled, an Exception raised by \<^verbatim>\<open>create_pool\<close> makes the starter
  raise after the one call: for KeyError the error that asks for the settings object of the
  resource, for ConnectionRefusedError the error that asks to check the config and whether
  the service is running, for anything else the generic error. The error is the outcome of
  \<^verbatim>\<open>run_bot\<close>, whose trace ends with the failed call: nothing is retried and nothing later
  runs.
\<close>

theorem pool_start_failures:
  "(config b ''database'' = Some d \<and> d ''enabled'' = Some True
      \<and> db_create_pool e = Some ex \<and> is_Exception ex \<longrightarrow>
      start_database_pool e b =
        ([LogInfo ''Creating database pool'', DbCreatePool],
         Raise (Exception
           (case ex of
              KeyError _ \<Rightarrow>
                ''KeyError creating database pool - is there a 'database' object in the config?''
            | ConnectionRefusedError _ \<Rightarrow>
                ''ConnectionRefusedError creating database pool - did you set the right information in the config, and is the database running?''
            | _ \<Rightarrow> ''Error creating database pool'')))
      \<and> snd (run_bot e b) = snd (start_database_pool e b)
      \<and> fst (run_bot e b) = fst (select_event_loop e) @ fst (start_database_pool e b)
      \<and> count_list (fst (run_bot e b)) DbCreatePool = 1)
   \<and> (config b ''redis'' = Some r \<and> r ''enabled'' = Some True
      \<and> redis_create_pool e = Some ex \<and> is_Exception ex \<longrightarrow>
      start_redis_pool e b =
        ([LogInfo ''Creating redis pool'', RedisCreatePool],
         Raise
           (case ex of
              KeyError _ \<Rightarrow>
                KeyError ''KeyError creating redis pool - is there a 'redis' object in the config?''
            | ConnectionRefusedError _ \<Rightarrow>
                ConnectionRefusedError
                  ''ConnectionRefusedError creating redis pool - did you set the right information in the config, and is the database running?''
            | _ \<Rightarrow> Exception ''Error creating redis pool''))
      \<and> (snd (start_database_pool e b) = Return () \<longrightarrow>
            snd (run_bot e b) = snd (start_redis_pool e b)
            \<and> fst (run_bot e b) =
                fst (select_event_loop e) @ fst (start_database_pool e b)
                @ fst (start_redis_pool e b)
            \<and> count_list (fst (run_bot e b)) RedisCreatePool = 1))"
proof (intro conjI impI)
  assume a: "config b ''database'' = Some d \<and> d ''enabled'' = Some True
      \<and> db_create_pool e = Some ex \<and> is_Exception ex"
  then have f: "start_database_pool e b =
        ([LogInfo ''Creating database pool'', DbCreatePool],
         Raise (Exception
           (case ex of
              KeyError _ \<Rightarrow>
                ''KeyError creating database pool - is there a 'database' object in the config?''
            | ConnectionRefusedError _ \<Rightarrow>
                ''ConnectionRefusedError creating database pool - did you set the right information in the config, and is the database running?''
            | _ \<Rightarrow> ''Error creating database pool'')))"
    by (simp add: start_database_pool_fails)
  then show "start_database_pool e b =
        ([LogInfo ''Creating database pool'', DbCreatePool],
         Raise (Exception
           (case ex of
              KeyError _ \<Rightarrow>
                ''KeyError creating database pool - is there a 'database' object in the config?''
            | ConnectionRefusedError _ \<Rightarrow>
                ''ConnectionRefusedError creating database pool - did you set the right information in the config, and is the database running?''
            | _ \<Rightarrow> ''Error creating database pool'')))" .
  from f obtain x where x: "snd (start_database_pool e b) = Raise x" by simp
  note rb = run_bot_database_raises [OF x]
  show "snd (run_bot e b) = snd (start_database_pool e b)" by (simp add: rb x)
  show "fst (run_bot e b) = fst (select_event_loop e) @ fst (start_database_pool e b)"
    by (simp add: rb)
  show "count_list (fst (run_bot e b)) DbCreatePool = 1"
    unfolding rb by (simp add: select_event_loop_count f)
next
  assume a: "config b ''redis'' = Some r \<and> r ''enabled'' = Some True
      \<and> redis_create_pool e = Some ex \<and> is_Exception ex"
  then show "start_redis_pool e b =
        ([LogInfo ''Creating redis pool'', RedisCreatePool],
         Raise
           (case ex of
              KeyError _ \<Rightarrow>
                KeyError ''KeyError creating redis pool - is there a 'redis' object in the config?''
            | ConnectionRefusedError _ \<Rightarrow>
                ConnectionRefusedError
                  ''ConnectionRefusedError creating redis pool - did you set the right information in the config, and is the database running?''
            | _ \<Rightarrow> Exception ''Error creating redis pool''))"
    by (simp add: start_redis_pool_fails)
next
  assume a: "config b ''redis'' = Some r \<and> r ''enabled'' = Some True
      \<and> redis_create_pool e = Some ex \<and> is_Exception ex"
    and d: "snd (start_database_pool e b) = Return ()"
  from a have f: "fst (start_redis_pool e b) = [LogInfo ''Creating redis pool'', RedisCreatePool]"
    and "\<exists>x. snd (start_redis_pool e b) = Raise x"
    by (simp_all add: start_redis_pool_fails)
  then obtain x where x: "snd (start_redis_pool e b) = Raise x" by blast
  note rb = run_bot_redis_raises [OF d x]
  show "snd (run_bot e b) = snd (start_redis_pool e b)" by (simp add: rb x)
  show "fst (run_bot e b) =
      fst (select_event_loop e) @ fst (start_database_pool e b) @ fst (start_redis_pool e b)"
    by (simp add: rb)
  show "count_list (fst (run_bot e b)) RedisCreatePool = 1"
    unfolding rb by (simp add: select_event_loop_count database_count_redis f)
qed

lemma start_database_pool_example: "snd (start_database_pool redis_no_settings_env example_bot) = Return ()"
  by code_simp

theorem pool_start_failures_witness:
  "start_database_pool database_refused_env example_bot =
     ([LogInfo ''Creating database pool'', DbCreatePool],
      Raise (Exception ''ConnectionRefusedError creating database pool - did you set the right information in the config, and is the database running?''))
   \<and> run_bot database_refused_env example_bot =
     ([LogInfo ''Creating database pool'', DbCreatePool],
      Raise (Exception ''ConnectionRefusedError creating database pool - did you set the right information in the config, and is the database running?''))
   \<and> start_redis_pool redis_no_settings_env example_bot =
     ([LogInfo ''Creating redis pool'', RedisCreatePool],
      Raise (KeyError ''KeyError creating redis pool - is there a 'redis' object in the config?''))
   \<and> snd (run_bot redis_no_settings_env example_bot) =
      Raise (KeyError ''KeyError creating redis pool - is there a 'redis' object in the config?'')
   \<and> count_list (fst (run_bot redis_no_settings_env example_bot)) RedisCreatePool = 1"
proof -
  have 1: "config example_bot ''database'' = Some [''enabled'' \<mapsto> True]"
    and 2: "config example_bot ''redis'' = Some [''enabled'' \<mapsto> True]"
    by (simp_all add: example_bot_def)
  have 3: "db_create_pool database_refused_env = Some (ConnectionRefusedError ''Connect call failed'')"
    and 4: "redis_create_pool redis_no_settings_env = Some (KeyError ''host'')"
    and 5: "fst (select_event_loop database_refused_env) = []"
    and 6: "db_create_pool redis_no_settings_env = None"
    by (simp_all add: database_refused_env_def redis_no_settings_env_def example_env_def
        select_event_loop_def ret_def)
  have a: "start_database_pool database_refused_env example_bot =
     ([LogInfo ''Creating database pool'', DbCreatePool],
      Raise (Exception ''ConnectionRefusedError creating database pool - did you set the right information in the config, and is the database running?''))"
    and b: "snd (run_bot database_refused_env example_bot) =
        snd (start_database_pool database_refused_env example_bot)"
    and c: "fst (run_bot database_refused_env example_bot) =
        fst (select_event_loop database_refused_env)
        @ fst (start_database_pool database_refused_env example_bot)"
    using pool_start_failures [of example_bot "[''enabled'' \<mapsto> True]" database_refused_env
        "ConnectionRefusedError ''Connect call failed''" "[''enabled'' \<mapsto> True]"] 1 3
    by simp_all
  have d: "run_bot database_refused_env example_bot =
     ([LogInfo ''Creating database pool'', DbCreatePool],
      Raise (Exception ''ConnectionRefusedError creating database pool - did you set the right information in the config, and is the database running?''))"
    by (rule prod_eqI) (simp_all add: a b c 5)
  have h: "config example_bot ''redis'' = Some [''enabled'' \<mapsto> True]
      \<and> [''enabled'' \<mapsto> True] ''enabled'' = Some True
      \<and> redis_create_pool redis_no_settings_env = Some (KeyError ''host'')
      \<and> is_Exception (KeyError ''host'')"
    by (simp add: 2 4)
  note r = mp [OF conjunct2 [OF pool_start_failures [of example_bot "[''enabled'' \<mapsto> True]"
        redis_no_settings_env "KeyError ''host''" "[''enabled'' \<mapsto> True]"]] h]
  have e: "start_redis_pool redis_no_settings_env example_bot =
     ([LogInfo ''Creating redis pool'', RedisCreatePool],
      Raise (KeyError ''KeyError creating redis pool - is there a 'redis' object in the config?''))"
    using conjunct1 [OF r] by simp
  note p = mp [OF conjunct2 [OF r] start_database_pool_example]
  have f: "snd (run_bot redis_no_settings_env example_bot) =
      Raise (KeyError ''KeyError creating redis pool - is there a 'redis' object in the config?'')"
    using conjunct1 [OF p] by (simp add: e)
  have g: "count_list (fst (run_bot redis_no_settings_env example_bot)) RedisCreatePool = 1"
    by (rule conjunct2 [OF conjunct2 [OF p]])
  show ?thesis by (intro conjI) (fact a d e f g)+
qed

subsection \<open>The schema bootstrap\<close>

lemma not_isspace_semicolon: "\<not> isspace CHR '';''"
  by (simp add: isspace_def)

lemma split_without_separator: "sep \<notin> set s \<Longrightarrow> split sep s = [s]"
  by (induction s) auto

lemma strip_blank:
  assumes "\<forall>c \<in> set s. isspace c" shows "strip s = []"
proof -
  have "dropWhile isspace s = []" using assms by (simp add: dropWhile_eq_Nil_conv)
  then show ?thesis by (simp only: strip_def rev.simps dropWhile.simps)
qed

lemma execute_statements_blank:
  "\<forall>i \<in> set xs. strip i = [] \<Longrightarrow> execute_statements e k xs = ([], Return ())"
  by (induction xs) (simp_all add: ret_def)

lemma execute_statements_all_succeed:
  "\<forall>k s. db_execute e k s = None \<Longrightarrow>
   execute_statements e k xs =
     (map DbExecute (map strip (filter (\<lambda>i. i \<noteq> [] \<and> strip i \<noteq> []) xs)), Return ())"
proof (induction xs arbitrary: k)
  case Nil
  show ?case by (simp add: ret_def)
next
  case (Cons i xs)
  then show ?case by (simp add: call_def bind_def)
qed

lemma create_initial_database_absent:
  "schema_file e = None \<Longrightarrow> create_initial_database e = ([], Return False)"
  by (simp add: create_initial_database_def ret_def)

lemma create_initial_database_blank:
  assumes "schema_file e = Some data" "db_acquire e = None" "\<forall>c \<in> set data. isspace c"
  shows "create_initial_database e = ([DbAcquire, DbRelease], Return True)"
proof -
  have "CHR '';'' \<notin> set data" using assms(3) not_isspace_semicolon by blast
  then have s: "split CHR '';'' data = [data]" by (rule split_without_separator)
  have "strip data = []" using assms(3) by (rule strip_blank)
  then have "execute_statements e 0 [data] = ([], Return ())"
    by (simp add: ret_def)
  then show ?thesis
    by (simp add: create_initial_database_def assms(1,2) s with_database_def bind_def ret_def)
qed

lemma create_initial_database_all_succeed:
  assumes "schema_file e = Some data" "db_acquire e = None" "\<forall>k s. db_execute e k s = None"
  shows "create_initial_database e =
     (DbAcquire #
      map DbExecute (map strip (filter (\<lambda>i. i \<noteq> [] \<and> strip i \<noteq> []) (split CHR '';'' data)))
      @ [DbRelease], Return True)"
  by (simp add: create_initial_database_def assms(1,2) with_database_def bind_def ret_def
      execute_statements_all_succeed [OF assms(3)])

text \<open>
  C2, as the claim states it, fails on an empty or whitespace-only schema file: the function
  returns \<^verbatim>\<open>True\<close> after acquiring and releasing a connection, the result of a completed
  bootstrap, and not the \<^verbatim>\<open>False\<close> it returns when the file cannot be read.
\<close>

theorem create_initial_database_empty_not_skipped:
  "snd (create_initial_database empty_schema_env) \<noteq> snd (create_initial_database no_schema_env)
   \<and> create_initial_database empty_schema_env = ([DbAcquire, DbRelease], Return True)
   \<and> create_initial_database blank_schema_env = ([DbAcquire, DbRelease], Return True)
   \<and> create_initial_database no_schema_env = ([], Return False)"
  by (simp add: create_initial_database_def empty_schema_env_def blank_schema_env_def
      no_schema_env_def example_env_def with_database_def bind_def ret_def strip_def isspace_def)

text \<open>
  C2, amended. When the schema file cannot be read the function returns \<^verbatim>\<open>False\<close> and
  touches nothing. When it can be read and a connection is acquired: for an empty or
  whitespace-only text no statement is sent and the function returns \<^verbatim>\<open>True\<close>; and when
  every statement succeeds, the pieces between the semicolons that are not blank are sent
  stripped, in document order, between one acquisition and one release of the connection,
  and the function returns \<^verbatim>\<open>True\<close>.
\<close>

theorem create_initial_database_behaviour:
  "(schema_file e = None \<longrightarrow> create_initial_database e = ([], Return False))
   \<and> (schema_file e = Some data \<and> db_acquire e = None \<and> (\<forall>c \<in> set data. isspace c) \<longrightarrow>
        create_initial_database e = ([DbAcquire, DbRelease], Return True))
   \<and> (schema_file e = Some data \<and> db_acquire e = None \<and> (\<forall>k s. db_execute e k s = None) \<longrightarrow>
        create_initial_database e =
          (DbAcquire #
           map DbExecute
             (map strip (filter (\<lambda>i. i \<noteq> [] \<and> strip i \<noteq> []) (split CHR '';'' data)))
           @ [DbRelease], Return True))"
  using create_initial_database_absent [of e] create_initial_database_blank [of e data]
    create_initial_database_all_succeed [of e data]
  by blast

theorem create_initial_database_behaviour_witness:
  "create_initial_database no_schema_env = ([], Return False)
   \<and> create_initial_database blank_schema_env = ([DbAcquire, DbRelease], Return True)
   \<and> create_initial_database example_env =
       ([DbAcquire, DbExecute ''CREATE TABLE a(x int)'', DbExecute ''CREATE TABLE b(y int)'',
         DbRelease], Return True)"
proof -
  have 1: "schema_file no_schema_env = None"
    and 2: "schema_file blank_schema_env = Some [CHR '' '', CHR 0x0A]"
       "db_acquire blank_schema_env = None" "\<forall>c \<in> set [CHR '' '', CHR 0x0A]. isspace c"
    and 3: "schema_file example_env = Some ''CREATE TABLE a(x int); CREATE TABLE b(y int);''"
       "db_acquire example_env = None" "\<forall>k s. db_execute example_env k s = None"
    by (simp_all add: no_schema_env_def blank_schema_env_def example_env_def isspace_def)
  have s: "map strip (filter (\<lambda>i. i \<noteq> [] \<and> strip i \<noteq> [])
       (split CHR '';'' ''CREATE TABLE a(x int); CREATE TABLE b(y int);'')) =
     [''CREATE TABLE a(x int)'', ''CREATE TABLE b(y int)'']"
    by code_simp
  note t1 = create_initial_database_behaviour [of no_schema_env "[]"]
  note t2 = create_initial_database_behaviour [of blank_schema_env "[CHR '' '', CHR 0x0A]"]
  note t3 = create_initial_database_behaviour [of example_env "''CREATE TABLE a(x int); CREATE TABLE b(y int);''"]
  have a: "create_initial_database no_schema_env = ([], Return False)"
    by (rule mp [OF conjunct1 [OF t1] 1])
  have b: "create_initial_database blank_schema_env = ([DbAcquire, DbRelease], Return True)"
    by (rule mp [OF conjunct1 [OF conjunct2 [OF t2]]]) (intro conjI 2)
  have "create_initial_database example_env =
          (DbAcquire #
           map DbExecute
             (map strip (filter (\<lambda>i. i \<noteq> [] \<and> strip i \<noteq> [])
                (split CHR '';'' ''CREATE TABLE a(x int); CREATE TABLE b(y int);'')))
           @ [DbRelease], Return True)"
    by (rule mp [OF conjunct2 [OF conjunct2 [OF t3]]]) (intro conjI 3)
  then have c: "create_initial_database example_env =
       ([DbAcquire, DbExecute ''CREATE TABLE a(x int)'', DbExecute ''CREATE TABLE b(y int)'',
         DbRelease], Return True)"
    unfolding s by simp
  show ?thesis by (intro conjI) (fact a b c)+
qed

end
